theory Spec2Isabelle
  imports Main
begin

section \<open>Package sh of mage: running external commands\<close>

text \<open>
  A shallow embedding of \<^verbatim>\<open>sh/cmd.go\<close>. The operating system, the file system and
  the Go runtime are parameters of the model: a \<open>world\<close> record holds the ambient
  environment, the answer of \<^verbatim>\<open>filepath.Glob\<close> for every pattern, the behaviour of every
  command line, the store of string arrays that slices point into, the byte buffers, and
  a log of the processes launched so far. Every function of the package takes the world
  and returns it updated.
\<close>

subsection \<open>Strings of the Go library\<close>

definition dquote :: string where
  "dquote = [CHR 0x22]"

definition newline :: string where
  "newline = [CHR 0x0A]"

text \<open>\<^verbatim>\<open>strings.Join(elems, sep)\<close>.\<close>

fun Join :: "string list \<Rightarrow> string \<Rightarrow> string" where
  "Join [] sep = []"
| "Join [x] sep = x"
| "Join (x # y # ys) sep = x @ sep @ Join (y # ys) sep"

text \<open>\<^verbatim>\<open>strings.HasSuffix\<close> and \<^verbatim>\<open>strings.TrimSuffix\<close>: the suffix is cut off once.\<close>

definition HasSuffix :: "string \<Rightarrow> string \<Rightarrow> bool" where
  "HasSuffix s suffix =
     (length s \<ge> length suffix \<and> drop (length s - length suffix) s = suffix)"

definition TrimSuffix :: "string \<Rightarrow> string \<Rightarrow> string" where
  "TrimSuffix s suffix =
     (if HasSuffix s suffix then take (length s - length suffix) s else s)"

text \<open>The verb \<^verbatim>\<open>%d\<close> of package fmt: an integer in decimal.\<close>

function decimal :: "nat \<Rightarrow> string" where
  "decimal n =
     (if n < 10 then [char_of (48 + n)]
      else decimal (n div 10) @ [char_of (48 + n mod 10)])"
  by pat_completeness auto
termination
  by (relation "measure id") auto

definition itoa :: "int \<Rightarrow> string" where
  "itoa i = (if i < 0 then CHR ''-'' # decimal (nat (- i)) else decimal (nat i))"

subsection \<open>\<^verbatim>\<open>os.Expand\<close>\<close>

text \<open>
  \<^verbatim>\<open>os.Expand(s, mapping)\<close> of the Go standard library replaces \<^verbatim>\<open>$name\<close> and
  \<^verbatim>\<open>${name}\<close> in \<open>s\<close> by \<open>mapping name\<close>. A name is a run of ASCII letters, digits
  and underscores, or one special character; a dollar sign that no name follows stays,
  and \<^verbatim>\<open>${}\<close> and an unclosed \<^verbatim>\<open>${\<close> are eaten.
\<close>

definition isShellSpecialVar :: "char \<Rightarrow> bool" where
  "isShellSpecialVar c = (c \<in> set ''*#$@!?-0123456789'')"

definition byte_le :: "char \<Rightarrow> char \<Rightarrow> bool" where
  "byte_le a b = ((of_char a :: nat) \<le> of_char b)"

definition isAlphaNum :: "char \<Rightarrow> bool" where
  "isAlphaNum c =
     (c = CHR ''_'' \<or> (byte_le (CHR ''0'') c \<and> byte_le c (CHR ''9''))
        \<or> (byte_le (CHR ''a'') c \<and> byte_le c (CHR ''z''))
        \<or> (byte_le (CHR ''A'') c \<and> byte_le c (CHR ''Z'')))"

text \<open>
  \<^verbatim>\<open>getShellName(s)\<close>: the name that begins the non-empty string \<open>s\<close>, and the number of
  bytes it takes.
\<close>

definition getShellName :: "string \<Rightarrow> string \<times> nat" where
  "getShellName s =
     (if hd s = CHR ''{'' then
        (if length s > 2 \<and> isShellSpecialVar (s ! 1) \<and> s ! 2 = CHR ''}'' then ([s ! 1], 3)
         else
           (let body = takeWhile (\<lambda>c. c \<noteq> CHR ''}'') (tl s) in
            if length body = length (tl s) then ([], 1)
            else if body = [] then ([], 2)
            else (body, length body + 2)))
      else if isShellSpecialVar (hd s) then ([hd s], 1)
      else (let name = takeWhile isAlphaNum s in (name, length name)))"

function Expand :: "string \<Rightarrow> (string \<Rightarrow> string) \<Rightarrow> string" where
  "Expand [] mapping = []"
| "Expand (c # rest) mapping =
     (if c = CHR ''$'' \<and> rest \<noteq> [] then
        (let name = fst (getShellName rest); w = snd (getShellName rest)
         in (if name = [] \<and> w > 0 then []
             else if name = [] then [c]
             else mapping name) @ Expand (drop w rest) mapping)
      else c # Expand rest mapping)"
  by pat_completeness auto
termination
  by (relation "measure (\<lambda>(s, m). length s)") auto

subsection \<open>Errors\<close>

text \<open>
  What \<^verbatim>\<open>ProcessState.Sys()\<close> holds for a process that was waited for: it exited with
  a code, or a signal ended it (the signal's name is kept for the message).
\<close>

datatype wait_status = WExited int | WSignaled string

text \<open>
  Modelled from the spec: the constructor \<open>Fatal\<close> stands for the result of
  \<^verbatim>\<open>mg.Fatalf(code, format, args...)\<close>. Package mg is part of the repository but not among
  the sources; the result is a failure that carries the exit code and the formatted
  message, and answers \<^verbatim>\<open>ExitStatus()\<close> with the code. The other constructors are the
  error values of the Go library that the package meets, by their type:
  \<^item> \<open>ExitError\<close>: a \<^verbatim>\<open>*exec.ExitError\<close>, with the state of the process;
  \<^item> \<open>LaunchError\<close>: what \<^verbatim>\<open>Cmd.Run\<close> returns when the process could not be started
    (an \<^verbatim>\<open>*exec.Error\<close> or an \<^verbatim>\<open>*fs.PathError\<close>), with its message;
  \<^item> \<open>ErrBadPattern\<close>: \<^verbatim>\<open>filepath.ErrBadPattern\<close>;
  \<^item> \<open>Errorf\<close>: the result of \<^verbatim>\<open>fmt.Errorf\<close>, with its message;
  \<^item> \<open>OtherError\<close>: an error of any other type (without a method \<^verbatim>\<open>ExitStatus()\<close>),
    with its message.
\<close>

datatype error =
    ExitError wait_status
  | LaunchError string
  | ErrBadPattern
  | Fatal int string
  | Errorf string
  | OtherError string

text \<open>\<^verbatim>\<open>WaitStatus.Exited()\<close> and \<^verbatim>\<open>WaitStatus.ExitStatus()\<close> of package syscall (Unix).\<close>

fun Exited :: "wait_status \<Rightarrow> bool" where
  "Exited (WExited n) = True"
| "Exited (WSignaled sig) = False"

fun WaitStatus_ExitStatus :: "wait_status \<Rightarrow> int" where
  "WaitStatus_ExitStatus (WExited n) = n"
| "WaitStatus_ExitStatus (WSignaled sig) = - 1"

text \<open>The method \<^verbatim>\<open>Error()\<close>: the message that the verb \<^verbatim>\<open>%v\<close> prints.\<close>

fun Error :: "error \<Rightarrow> string" where
  "Error (ExitError (WExited n)) = ''exit status '' @ itoa n"
| "Error (ExitError (WSignaled sig)) = ''signal: '' @ sig"
| "Error (LaunchError m) = m"
| "Error ErrBadPattern = ''syntax error in pattern''"
| "Error (Fatal code m) = m"
| "Error (Errorf m) = m"
| "Error (OtherError m) = m"

text \<open>
  \<^verbatim>\<open>CmdRan(err)\<close>: true for nil; for an \<^verbatim>\<open>*exec.ExitError\<close> what \<^verbatim>\<open>Exited()\<close> says; false for an
  error of any other type.
\<close>

fun CmdRan :: "error option \<Rightarrow> bool" where
  "CmdRan None = True"
| "CmdRan (Some (ExitError ee)) = Exited ee"
| "CmdRan (Some e) = False"

text \<open>
  \<^verbatim>\<open>ExitStatus(err)\<close>: 0 for nil; the answer of \<^verbatim>\<open>ExitStatus()\<close> when the error has that
  method (of the errors above, only \<open>Fatal\<close> has it); for an \<^verbatim>\<open>*exec.ExitError\<close> the exit
  status of its \<^verbatim>\<open>Sys()\<close>; 1 for any other error.
\<close>

fun ExitStatus :: "error option \<Rightarrow> int" where
  "ExitStatus None = 0"
| "ExitStatus (Some (Fatal code m)) = code"
| "ExitStatus (Some (ExitError e)) = WaitStatus_ExitStatus e"
| "ExitStatus (Some e) = 1"

subsection \<open>The world: environment, file system, processes, store\<close>

text \<open>
  What one run of a child process does: its standard output, its standard error, how it
  ended (the \<^verbatim>\<open>ProcessState\<close>; \<open>None\<close> when it was never started), and the value
  \<^verbatim>\<open>Cmd.Run\<close> returns. \<^verbatim>\<open>Cmd.Run\<close> returns nil only when the process exited with status
  0 and its output was copied to the writers; for a process that exited with status 0 it
  returns the error of a writer that failed while the output was copied to it.
\<close>

record proc_result =
  p_stdout :: string
  p_stderr :: string
  p_state :: "wait_status option"
  p_result :: "error option"

text \<open>
  A \<^verbatim>\<open>map[string]string\<close> is a list of pairs read with \<open>map_of\<close>; the nil map is \<open>[]\<close>.
  Go ranges over a map in no fixed order; the model ranges in list order.
\<close>

type_synonym env_map = "(string \<times> string) list"

record world =
  environ :: "(string \<times> string) list"
  verbose :: bool
  glob :: "string \<Rightarrow> error + string list"
  fmt_q :: "string \<Rightarrow> string"
  command :: "string \<Rightarrow> string list \<Rightarrow> string list \<Rightarrow> proc_result"
  heap :: "string list list"
  bufs :: "string list"
  os_stdout :: string
  os_stderr :: string
  logged :: "string list"
  launched :: "(string \<times> string list \<times> string list) list"

text \<open>
  \<^item> \<open>environ\<close>: the environment of this process, name and value;
  \<^item> \<open>verbose\<close>: what \<^verbatim>\<open>mg.Verbose()\<close> answers (package mg is not among the sources);
  \<^item> \<open>glob\<close>: what \<^verbatim>\<open>filepath.Glob\<close> answers for a pattern on the present file system;
  \<^item> \<open>fmt_q\<close>: the verb \<^verbatim>\<open>%q\<close> of package fmt;
  \<^item> \<open>command\<close>: what running a command name with arguments and an environment does;
  \<^item> \<open>heap\<close>: the arrays of strings, by address; slices point into them;
  \<^item> \<open>bufs\<close>: the \<^verbatim>\<open>bytes.Buffer\<close> values, by address;
  \<^item> \<open>os_stdout\<close>, \<open>os_stderr\<close>: what was written to the two streams of this process;
  \<^item> \<open>logged\<close>: the lines given to package log;
  \<^item> \<open>launched\<close>: every call of \<^verbatim>\<open>Cmd.Run\<close> so far: name, arguments, environment.
\<close>

text \<open>\<^verbatim>\<open>os.Getenv\<close>: the value, empty when the variable is not set. \<^verbatim>\<open>os.Environ\<close>: the
  environment as \<^verbatim>\<open>name=value\<close> strings.\<close>

definition Getenv :: "world \<Rightarrow> string \<Rightarrow> string" where
  "Getenv w key = (case map_of (environ w) key of Some v \<Rightarrow> v | None \<Rightarrow> [])"

definition Environ :: "world \<Rightarrow> string list" where
  "Environ w = map (\<lambda>(k, v). k @ ''='' @ v) (environ w)"

text \<open>An \<^verbatim>\<open>io.Writer\<close> handed to \<^verbatim>\<open>Exec\<close>: nil (the output is dropped), one of the two
  streams of this process, a buffer, or a writer of the caller whose \<^verbatim>\<open>Write\<close> keeps
  nothing and fails with an error of the given message.\<close>

datatype writer = NilWriter | OsStdout | OsStderr | Buffer nat | ErrWriter string

fun Write :: "writer \<Rightarrow> string \<Rightarrow> world \<Rightarrow> world" where
  "Write NilWriter s w = w"
| "Write OsStdout s w = w\<lparr>os_stdout := os_stdout w @ s\<rparr>"
| "Write OsStderr s w = w\<lparr>os_stderr := os_stderr w @ s\<rparr>"
| "Write (Buffer b) s w = w\<lparr>bufs := (bufs w)[b := bufs w ! b @ s]\<rparr>"
| "Write (ErrWriter m) s w = w"

subsection \<open>Slices\<close>

text \<open>
  A \<^verbatim>\<open>[]string\<close> is a window on an array of the store: the array's address, the offset
  of the window, its length and its capacity. Two slices on one array share its
  elements. The nil slice has length and capacity 0.
\<close>

record slice =
  s_arr :: nat
  s_off :: nat
  s_len :: nat
  s_cap :: nat

definition wf_slice :: "string list list \<Rightarrow> slice \<Rightarrow> bool" where
  "wf_slice h s =
     (s_len s \<le> s_cap s \<and>
      (s_cap s = 0 \<or> (s_arr s < length h \<and> s_off s + s_cap s \<le> length (h ! s_arr s))))"

definition slice_elems :: "string list list \<Rightarrow> slice \<Rightarrow> string list" where
  "slice_elems h s = (if s_len s = 0 then [] else take (s_len s) (drop (s_off s) (h ! s_arr s)))"

definition slice_get :: "string list list \<Rightarrow> slice \<Rightarrow> nat \<Rightarrow> string" where
  "slice_get h s i = h ! s_arr s ! (s_off s + i)"

definition slice_set :: "string list list \<Rightarrow> slice \<Rightarrow> nat \<Rightarrow> string \<Rightarrow> string list list" where
  "slice_set h s i v = h[s_arr s := (h ! s_arr s)[s_off s + i := v]]"

text \<open>
  \<^verbatim>\<open>append(s, xs...)\<close>: when the capacity suffices the new elements are written into the
  array of \<open>s\<close>, behind its window, and the result shares that array; otherwise the
  elements are copied to a fresh array. (The runtime may give the fresh array spare
  capacity; the model gives it none.)
\<close>

fun write_at :: "string list \<Rightarrow> nat \<Rightarrow> string list \<Rightarrow> string list" where
  "write_at a i [] = a"
| "write_at a i (x # xs) = write_at (a[i := x]) (Suc i) xs"

definition append_slice :: "slice \<Rightarrow> string list \<Rightarrow> string list list \<Rightarrow> slice \<times> string list list" where
  "append_slice s xs h =
     (if s_len s + length xs \<le> s_cap s then
        (s\<lparr>s_len := s_len s + length xs\<rparr>,
         if xs = [] then h else h[s_arr s := write_at (h ! s_arr s) (s_off s + s_len s) xs])
      else
        (\<lparr>s_arr = length h, s_off = 0, s_len = s_len s + length xs, s_cap = s_len s + length xs\<rparr>,
         h @ [slice_elems h s @ xs]))"

subsection \<open>\<^verbatim>\<open>expandGlob\<close>, \<^verbatim>\<open>run\<close> and \<^verbatim>\<open>Exec\<close>\<close>

text \<open>
  \<^verbatim>\<open>expandGlob(value)\<close>: the loop over \<open>value\<close>, with \<open>result\<close> as it grows: the
  matches of a pattern are appended one by one, in their order, and a pattern without
  matches is appended itself. The first pattern that \<^verbatim>\<open>filepath.Glob\<close> refuses ends the
  loop with its error.
\<close>

fun expandGlob_loop :: "world \<Rightarrow> string list \<Rightarrow> string list \<Rightarrow> error + string list" where
  "expandGlob_loop w [] result = Inr result"
| "expandGlob_loop w (v # value) result =
     (case glob w v of
        Inl err \<Rightarrow> Inl err
      | Inr matches \<Rightarrow>
          if length matches > 0 then expandGlob_loop w value (result @ matches)
          else expandGlob_loop w value (result @ [v]))"

definition expandGlob :: "world \<Rightarrow> string list \<Rightarrow> error + string list" where
  "expandGlob w value = expandGlob_loop w value []"

text \<open>
  \<^verbatim>\<open>run(env, stdout, stderr, cmd, args...)\<close> returns \<open>(ran, code, err)\<close>. After the glob
  expansion it builds the environment of the child (that of this process, then the
  entries of \<open>env\<close>), logs the command line when verbose, and runs the command: the run
  is recorded in \<open>launched\<close>, and what the child prints goes to the two writers.
\<close>

definition run ::
  "env_map \<Rightarrow> writer \<Rightarrow> writer \<Rightarrow> string \<Rightarrow> slice \<Rightarrow> world \<Rightarrow> (bool \<times> int \<times> error option) \<times> world" where
  "run env stdout stderr cmd args w =
     (case expandGlob w (slice_elems (heap w) args) of
        Inl err \<Rightarrow> ((False, 0, Some err), w)
      | Inr expanded \<Rightarrow>
          (let cEnv = Environ w @ map (\<lambda>(k, v). k @ ''='' @ v) env;
               quoted = map (fmt_q w) expanded;
               w1 = (if verbose w
                     then w\<lparr>logged := logged w @ [''exec: '' @ cmd @ '' '' @ Join quoted '' '']\<rparr>
                     else w);
               r = command w cmd expanded cEnv;
               w2 = w1\<lparr>launched := launched w1 @ [(cmd, expanded, cEnv)]\<rparr>;
               w3 = Write stderr (p_stderr r) (Write stdout (p_stdout r) w2);
               err = p_result r
           in ((CmdRan err, ExitStatus err, err), w3)))"

text \<open>The closure \<open>expand\<close> of \<^verbatim>\<open>Exec\<close>: the entry of \<open>env\<close> when there is one, else
  \<^verbatim>\<open>os.Getenv\<close>.\<close>

definition expand :: "env_map \<Rightarrow> world \<Rightarrow> string \<Rightarrow> string" where
  "expand env w s = (case map_of env s of Some s2 \<Rightarrow> s2 | None \<Rightarrow> Getenv w s)"

text \<open>The loop \<^verbatim>\<open>for i := range args { args[i] = os.Expand(args[i], expand) }\<close>, over the
  indices that remain: it writes into the array of \<open>args\<close>.\<close>

fun expand_args :: "(string \<Rightarrow> string) \<Rightarrow> slice \<Rightarrow> nat list \<Rightarrow> string list list \<Rightarrow> string list list" where
  "expand_args f args [] h = h"
| "expand_args f args (i # is) h =
     expand_args f args is (slice_set h args i (Expand (slice_get h args i) f))"

definition Exec ::
  "env_map \<Rightarrow> writer \<Rightarrow> writer \<Rightarrow> string \<Rightarrow> slice \<Rightarrow> world \<Rightarrow> (bool \<times> error option) \<times> world" where
  "Exec env stdout stderr cmd args w =
     (let cmd' = Expand cmd (expand env w);
          w1 = w\<lparr>heap := expand_args (expand env w) args [0..<s_len args] (heap w)\<rparr>;
          r = run env stdout stderr cmd' args w1;
          ran = fst (fst r); code = fst (snd (fst r)); err = snd (snd (fst r)); w2 = snd r
      in case err of
           None \<Rightarrow> ((True, None), w2)
         | Some e \<Rightarrow>
             if ran then
               ((ran, Some (Fatal code
                  (''running '' @ dquote @ cmd' @ '' '' @ Join (slice_elems (heap w2) args) '' '' @ dquote
                     @ '' failed with exit code '' @ itoa code))), w2)
             else
               ((ran, Some (Errorf
                  (''failed to run '' @ dquote @ cmd' @ '' '' @ Join (slice_elems (heap w2) args) '' ''
                     @ '': '' @ Error e @ dquote))), w2))"

subsection \<open>The functions built on \<^verbatim>\<open>Exec\<close>\<close>

definition RunWith :: "env_map \<Rightarrow> string \<Rightarrow> slice \<Rightarrow> world \<Rightarrow> error option \<times> world" where
  "RunWith env cmd args w =
     (let output = (if verbose w then OsStdout else NilWriter);
          r = Exec env output OsStderr cmd args w
      in (snd (fst r), snd r))"

definition Run :: "string \<Rightarrow> slice \<Rightarrow> world \<Rightarrow> error option \<times> world" where
  "Run cmd args w = RunWith [] cmd args w"

definition RunV :: "string \<Rightarrow> slice \<Rightarrow> world \<Rightarrow> error option \<times> world" where
  "RunV cmd args w = (let r = Exec [] OsStdout OsStderr cmd args w in (snd (fst r), snd r))"

definition RunWithV :: "env_map \<Rightarrow> string \<Rightarrow> slice \<Rightarrow> world \<Rightarrow> error option \<times> world" where
  "RunWithV env cmd args w = (let r = Exec env OsStdout OsStderr cmd args w in (snd (fst r), snd r))"

text \<open>\<^verbatim>\<open>OutputWith\<close> makes a fresh empty buffer, hands it to \<^verbatim>\<open>Exec\<close> as standard output,
  and returns its content without one newline at the end.\<close>

definition OutputWith :: "env_map \<Rightarrow> string \<Rightarrow> slice \<Rightarrow> world \<Rightarrow> (string \<times> error option) \<times> world" where
  "OutputWith env cmd args w =
     (let buf = length (bufs w);
          r = Exec env (Buffer buf) OsStderr cmd args (w\<lparr>bufs := bufs w @ [[]]\<rparr>)
      in ((TrimSuffix (bufs (snd r) ! buf) newline, snd (fst r)), snd r))"

definition Output :: "string \<Rightarrow> slice \<Rightarrow> world \<Rightarrow> (string \<times> error option) \<times> world" where
  "Output cmd args w =
     (let buf = length (bufs w);
          r = Exec [] (Buffer buf) OsStderr cmd args (w\<lparr>bufs := bufs w @ [[]]\<rparr>)
      in ((TrimSuffix (bufs (snd r) ! buf) newline, snd (fst r)), snd r))"

text \<open>
  \<^verbatim>\<open>RunCmd(cmd, args...)\<close> is a closure that keeps \<open>cmd\<close> and the slice \<open>args\<close>; a call
  with \<open>args2\<close> runs \<^verbatim>\<open>Run(cmd, append(args, args2...)...)\<close>. A slice given to a variadic
  parameter with \<^verbatim>\<open>...\<close> is passed as it is, not copied.
\<close>

definition RunCmd :: "string \<Rightarrow> slice \<Rightarrow> slice \<Rightarrow> world \<Rightarrow> error option \<times> world" where
  "RunCmd cmd args args2 w =
     (let a = append_slice args (slice_elems (heap w) args2) (heap w)
      in Run cmd (fst a) (w\<lparr>heap := snd a\<rparr>))"

definition OutCmd :: "string \<Rightarrow> slice \<Rightarrow> slice \<Rightarrow> world \<Rightarrow> (string \<times> error option) \<times> world" where
  "OutCmd cmd args args2 w =
     (let a = append_slice args (slice_elems (heap w) args2) (heap w)
      in Output cmd (fst a) (w\<lparr>heap := snd a\<rparr>))"

text \<open>The nil slice.\<close>

definition nil_slice :: slice where
  "nil_slice = \<lparr>s_arr = 0, s_off = 0, s_len = 0, s_cap = 0\<rparr>"

subsection \<open>A small world for the examples\<close>

text \<open>
  A directory with \<^verbatim>\<open>a.go\<close> and \<^verbatim>\<open>b.go\<close> and a subdirectory \<^verbatim>\<open>src\<close> with
  \<^verbatim>\<open>main.go\<close>; the pattern \<^verbatim>\<open>[\<close> is malformed. The command \<^verbatim>\<open>echo\<close> prints its
  arguments, \<^verbatim>\<open>false\<close> exits with status 1, \<^verbatim>\<open>grep\<close> with status 2, and no other
  command exists. The environment sets \<^verbatim>\<open>FOO=baz\<close> and \<^verbatim>\<open>DIR=src\<close>.
\<close>

definition demo_glob :: "string \<Rightarrow> error + string list" where
  "demo_glob p =
     (if p = ''*.go'' then Inr [''a.go'', ''b.go'']
      else if p = ''src/*.go'' then Inr [''src/main.go'']
      else if p = ''['' then Inl ErrBadPattern
      else Inr [])"

definition demo_command :: "string \<Rightarrow> string list \<Rightarrow> string list \<Rightarrow> proc_result" where
  "demo_command cmd args env =
     (if cmd = ''echo'' then
        \<lparr>p_stdout = Join args '' '' @ newline, p_stderr = [], p_state = Some (WExited 0),
         p_result = None\<rparr>
      else if cmd = ''false'' then
        \<lparr>p_stdout = [], p_stderr = [], p_state = Some (WExited 1),
         p_result = Some (ExitError (WExited 1))\<rparr>
      else if cmd = ''grep'' then
        \<lparr>p_stdout = [], p_stderr = ''grep: no such file'' @ newline,
         p_state = Some (WExited 2), p_result = Some (ExitError (WExited 2))\<rparr>
      else
        \<lparr>p_stdout = [], p_stderr = [], p_state = None,
         p_result = Some (LaunchError (''exec: '' @ dquote @ cmd @ dquote
                      @ '': executable file not found in $PATH''))\<rparr>)"

definition demo_world :: world where
  "demo_world =
     \<lparr>environ = [(''FOO'', ''baz''), (''DIR'', ''src'')],
      verbose = False,
      glob = demo_glob,
      fmt_q = (\<lambda>s. dquote @ s @ dquote),
      command = demo_command,
      heap = [[''$FOO'', ''$DIR/*.go'', ''*.xyz'', ''$NONE'']],
      bufs = [],
      os_stdout = [],
      os_stderr = [],
      logged = [],
      launched = []\<rparr>"

definition demo_args :: slice where
  "demo_args = \<lparr>s_arr = 0, s_off = 0, s_len = 4, s_cap = 4\<rparr>"

text \<open>A slice on one element with no spare capacity, as a call with one argument makes
  it: the slice that \<^verbatim>\<open>RunCmd("echo", "$FOO")\<close> keeps.\<close>

definition demo_baked :: slice where
  "demo_baked = \<lparr>s_arr = 0, s_off = 0, s_len = 1, s_cap = 1\<rparr>"

text \<open>
  The same world when the caller hands \<^verbatim>\<open>Exec\<close> a writer for standard output that fails
  with \<^verbatim>\<open>disk full\<close>: \<^verbatim>\<open>echo\<close> prints its arguments and exits with status 0, the copy
  of its output to the writer fails, and \<^verbatim>\<open>Cmd.Run\<close> returns the writer's error.
\<close>

definition demo_command_sink_fails :: "string \<Rightarrow> string list \<Rightarrow> string list \<Rightarrow> proc_result" where
  "demo_command_sink_fails cmd args env =
     (if cmd = ''echo'' then
        \<lparr>p_stdout = Join args '' '' @ newline, p_stderr = [], p_state = Some (WExited 0),
         p_result = Some (OtherError ''disk full'')\<rparr>
      else demo_command cmd args env)"

definition demo_world_sink_fails :: world where
  "demo_world_sink_fails = demo_world\<lparr>command := demo_command_sink_fails, heap := [[''hello'']]\<rparr>"

section \<open>Properties\<close>

subsection \<open>The loop that expands the arguments in place\<close>

lemma expand_args_array:
  "s_arr s < length h \<Longrightarrow>
   expand_args f s is h =
     h[s_arr s := fold (\<lambda>i a. a[s_off s + i := Expand (a ! (s_off s + i)) f]) is (h ! s_arr s)]"
  by (induction "is" arbitrary: h) (simp_all add: slice_set_def slice_get_def)

lemma fold_update_length:
  "length (fold (\<lambda>i a. a[off + i := g (a ! (off + i))]) is a) = length (a :: 'a list)"
  by (induction "is" arbitrary: a) simp_all

lemma fold_update_nth:
  "j < length a \<Longrightarrow>
   fold (\<lambda>i a. a[off + i := g (a ! (off + i))]) [0..<n] a ! j =
     (if off \<le> j \<and> j < off + n then g (a ! j) else a ! j)"
proof (induction n arbitrary: j)
  case 0
  then show ?case by auto
next
  case (Suc n)
  let ?B = "fold (\<lambda>i a. a[off + i := g (a ! (off + i))]) [0..<n] a"
  have len: "length ?B = length a"
    by (rule fold_update_length)
  show ?case
  proof (cases "j = off + n")
    case True
    with Suc.prems Suc.IH [of "off + n"] show ?thesis
      by (simp add: len)
  next
    case False
    with Suc.prems Suc.IH [of j] show ?thesis
      by (auto simp: len)
  qed
qed

lemma expand_args_elems:
  assumes "wf_slice h s"
  shows "slice_elems (expand_args f s [0..<s_len s] h) s = map (\<lambda>a. Expand a f) (slice_elems h s)"
proof (cases "s_len s = 0")
  case True
  then show ?thesis by (simp add: slice_elems_def)
next
  case False
  with assms have a: "s_arr s < length h" and b: "s_off s + s_len s \<le> length (h ! s_arr s)"
    by (auto simp: wf_slice_def)
  let ?A = "h ! s_arr s"
  let ?B = "fold (\<lambda>i a. a[s_off s + i := Expand (a ! (s_off s + i)) f]) [0..<s_len s] ?A"
  have len: "length ?B = length ?A"
    using fold_update_length [where g = "\<lambda>x. Expand x f"] by simp
  have "take (s_len s) (drop (s_off s) ?B) = map (\<lambda>a. Expand a f) (take (s_len s) (drop (s_off s) ?A))"
  proof (rule nth_equalityI)
    show "length (take (s_len s) (drop (s_off s) ?B)) =
          length (map (\<lambda>a. Expand a f) (take (s_len s) (drop (s_off s) ?A)))"
      by (simp add: len)
  next
    fix i
    assume "i < length (take (s_len s) (drop (s_off s) ?B))"
    then have i: "i < s_len s" by simp
    with b have "s_off s + i < length ?A" by simp
    then have "?B ! (s_off s + i) = Expand (?A ! (s_off s + i)) f"
      using i fold_update_nth [where g = "\<lambda>x. Expand x f" and a = ?A and off = "s_off s" and n = "s_len s" and j = "s_off s + i"]
      by simp
    then show "take (s_len s) (drop (s_off s) ?B) ! i =
               map (\<lambda>a. Expand a f) (take (s_len s) (drop (s_off s) ?A)) ! i"
      using i b by (simp add: len)
  qed
  then show ?thesis
    using False a by (simp add: slice_elems_def expand_args_array)
qed


lemma Write_fields [simp]:
  "heap (Write x s w) = heap w"
  "launched (Write x s w) = launched w"
  "logged (Write x s w) = logged w"
  "environ (Write x s w) = environ w"
  "glob (Write x s w) = glob w"
  "command (Write x s w) = command w"
  "verbose (Write x s w) = verbose w"
  by (cases x; simp)+


lemma expandGlob_loop_cong:
  assumes "glob w' = glob w"
  shows "expandGlob_loop w' vs acc = expandGlob_loop w vs acc"
proof (induction vs arbitrary: acc)
  case Nil
  show ?case by simp
next
  case (Cons v vs)
  show ?case
    by (cases "glob w v") (simp_all add: assms Cons.IH)
qed

lemma expandGlob_heap [simp]:
  "expandGlob (w\<lparr>heap := h\<rparr>) vs = expandGlob w vs"
  unfolding expandGlob_def by (rule expandGlob_loop_cong) simp


lemma expandGlob_loop_ok:
  "(\<And>v. v \<in> set vs \<Longrightarrow> \<exists>ms. glob w v = Inr ms) \<Longrightarrow>
   expandGlob_loop w vs acc =
     Inr (acc @ concat (map (\<lambda>v. case glob w v of Inr ms \<Rightarrow> if ms = [] then [v] else ms
                                                | Inl e \<Rightarrow> [v]) vs))"
proof (induction vs arbitrary: acc)
  case Nil
  then show ?case by simp
next
  case (Cons v vs)
  from Cons.prems [of v] obtain ms where ms: "glob w v = Inr ms" by auto
  have rest: "\<And>u. u \<in> set vs \<Longrightarrow> \<exists>ms. glob w u = Inr ms"
    using Cons.prems by simp
  show ?case
    by (simp add: ms Cons.IH [OF rest])
qed

lemma expandGlob_loop_err:
  "v \<in> set vs \<Longrightarrow> glob w v = Inl e0 \<Longrightarrow>
   \<exists>b e. b \<in> set vs \<and> glob w b = Inl e \<and> expandGlob_loop w vs acc = Inl e"
proof (induction vs arbitrary: acc)
  case Nil
  then show ?case by simp
next
  case (Cons u vs)
  show ?case
  proof (cases "glob w u")
    case (Inl e)
    then show ?thesis by auto
  next
    case (Inr ms)
    with Cons.prems have v: "v \<in> set vs" by auto
    let ?acc = "if length ms > 0 then acc @ ms else acc @ [u]"
    from Cons.IH [OF v Cons.prems(2), of ?acc]
    obtain b e where "b \<in> set vs" "glob w b = Inl e" "expandGlob_loop w vs ?acc = Inl e"
      by blast
    then have "b \<in> set (u # vs) \<and> glob w b = Inl e \<and> expandGlob_loop w (u # vs) acc = Inl e"
      using Inr by (cases "ms = []") simp_all
    then show ?thesis by blast
  qed
qed


lemma run_glob_error:
  "expandGlob w (slice_elems (heap w) args) = Inl e \<Longrightarrow>
   run env so se cmd args w = ((False, 0, Some e), w)"
  by (simp add: run_def)

lemma run_started:
  assumes "expandGlob w (slice_elems (heap w) args) = Inr expanded"
  shows "fst (run env so se cmd args w) =
           (CmdRan (p_result (command w cmd expanded (Environ w @ map (\<lambda>(k, v). k @ ''='' @ v) env))),
            ExitStatus (p_result (command w cmd expanded (Environ w @ map (\<lambda>(k, v). k @ ''='' @ v) env))),
            p_result (command w cmd expanded (Environ w @ map (\<lambda>(k, v). k @ ''='' @ v) env)))"
    and "launched (snd (run env so se cmd args w)) =
           launched w @ [(cmd, expanded, Environ w @ map (\<lambda>(k, v). k @ ''='' @ v) env)]"
    and "heap (snd (run env so se cmd args w)) = heap w"
  using assms by (simp_all add: run_def Let_def)


lemma run_heap: "heap (snd (run env so se cmd args w)) = heap w"
  by (cases "expandGlob w (slice_elems (heap w) args)") (simp_all add: run_def Let_def)

lemma Environ_heap [simp]: "Environ (w\<lparr>heap := h\<rparr>) = Environ w"
  by (simp add: Environ_def)

lemma Exec_heap:
  "heap (snd (Exec env so se cmd args w)) =
     expand_args (expand env w) args [0..<s_len args] (heap w)"
  by (simp add: Exec_def Let_def run_heap split: option.splits)

lemma Exec_glob_error:
  assumes "wf_slice (heap w) args"
    and "expandGlob w (map (\<lambda>a. Expand a (expand env w)) (slice_elems (heap w) args)) = Inl e"
  shows "Exec env so se cmd args w =
     ((False, Some (Errorf (''failed to run '' @ dquote @ Expand cmd (expand env w) @ '' ''
        @ Join (map (\<lambda>a. Expand a (expand env w)) (slice_elems (heap w) args)) '' ''
        @ '': '' @ Error e @ dquote))),
      w\<lparr>heap := expand_args (expand env w) args [0..<s_len args] (heap w)\<rparr>)"
proof -
  let ?w1 = "w\<lparr>heap := expand_args (expand env w) args [0..<s_len args] (heap w)\<rparr>"
  have el: "slice_elems (heap ?w1) args = map (\<lambda>a. Expand a (expand env w)) (slice_elems (heap w) args)"
    using assms(1) by (simp add: expand_args_elems)
  have "expandGlob ?w1 (slice_elems (heap ?w1) args) = Inl e"
    using assms(2) by (simp only: el expandGlob_heap)
  then have "run env so se (Expand cmd (expand env w)) args ?w1 = ((False, 0, Some e), ?w1)"
    by (rule run_glob_error)
  then show ?thesis
    using el by (simp add: Exec_def Let_def)
qed

lemma Exec_started:
  assumes "wf_slice (heap w) args"
    and "expandGlob w (map (\<lambda>a. Expand a (expand env w)) (slice_elems (heap w) args)) = Inr expanded"
  shows "fst (Exec env so se cmd args w) =
     (case p_result (command w (Expand cmd (expand env w)) expanded
                       (Environ w @ map (\<lambda>(k, v). k @ ''='' @ v) env)) of
        None \<Rightarrow> (True, None)
      | Some e \<Rightarrow>
          if CmdRan (Some e) then
            (True, Some (Fatal (ExitStatus (Some e))
               (''running '' @ dquote @ Expand cmd (expand env w) @ '' ''
                  @ Join (map (\<lambda>a. Expand a (expand env w)) (slice_elems (heap w) args)) '' '' @ dquote
                  @ '' failed with exit code '' @ itoa (ExitStatus (Some e)))))
          else
            (False, Some (Errorf
               (''failed to run '' @ dquote @ Expand cmd (expand env w) @ '' ''
                  @ Join (map (\<lambda>a. Expand a (expand env w)) (slice_elems (heap w) args)) '' ''
                  @ '': '' @ Error e @ dquote))))"
    and "launched (snd (Exec env so se cmd args w)) =
           launched w @ [(Expand cmd (expand env w), expanded,
                          Environ w @ map (\<lambda>(k, v). k @ ''='' @ v) env)]"
proof -
  let ?w1 = "w\<lparr>heap := expand_args (expand env w) args [0..<s_len args] (heap w)\<rparr>"
  let ?r = "run env so se (Expand cmd (expand env w)) args ?w1"
  have el: "slice_elems (heap ?w1) args = map (\<lambda>a. Expand a (expand env w)) (slice_elems (heap w) args)"
    using assms(1) by (simp add: expand_args_elems)
  have g: "expandGlob ?w1 (slice_elems (heap ?w1) args) = Inr expanded"
    using assms(2) by (simp only: el expandGlob_heap)
  have h2: "heap (snd ?r) = heap ?w1"
    by (rule run_heap)
  have el2: "slice_elems (heap (snd ?r)) args = map (\<lambda>a. Expand a (expand env w)) (slice_elems (heap w) args)"
    using el by (simp only: h2)
  note rs = run_started [OF g, of env so se "Expand cmd (expand env w)"]
  show "fst (Exec env so se cmd args w) =
     (case p_result (command w (Expand cmd (expand env w)) expanded
                       (Environ w @ map (\<lambda>(k, v). k @ ''='' @ v) env)) of
        None \<Rightarrow> (True, None)
      | Some e \<Rightarrow>
          if CmdRan (Some e) then
            (True, Some (Fatal (ExitStatus (Some e))
               (''running '' @ dquote @ Expand cmd (expand env w) @ '' ''
                  @ Join (map (\<lambda>a. Expand a (expand env w)) (slice_elems (heap w) args)) '' '' @ dquote
                  @ '' failed with exit code '' @ itoa (ExitStatus (Some e)))))
          else
            (False, Some (Errorf
               (''failed to run '' @ dquote @ Expand cmd (expand env w) @ '' ''
                  @ Join (map (\<lambda>a. Expand a (expand env w)) (slice_elems (heap w) args)) '' ''
                  @ '': '' @ Error e @ dquote))))"
    unfolding Exec_def Let_def el2 rs(1)
    by (simp split: option.splits)
  show "launched (snd (Exec env so se cmd args w)) =
           launched w @ [(Expand cmd (expand env w), expanded,
                          Environ w @ map (\<lambda>(k, v). k @ ''='' @ v) env)]"
    using rs(2) by (simp add: Exec_def Let_def split: option.splits)
qed

subsection \<open>The small world, evaluated\<close>

lemma demo_wf: "wf_slice (heap demo_world) demo_args"
  by (simp add: wf_slice_def demo_world_def demo_args_def)

lemma demo_elems:
  "slice_elems (heap demo_world) demo_args = [''$FOO'', ''$DIR/*.go'', ''*.xyz'', ''$NONE'']"
  by (simp add: slice_elems_def demo_world_def demo_args_def)

lemma demo_getShellName:
  "getShellName ''FOO'' = (''FOO'', 3)"
  "getShellName ''DIR/*.go'' = (''DIR'', 3)"
  "getShellName ''NONE'' = (''NONE'', 4)"
  by (simp_all add: getShellName_def isShellSpecialVar_def isAlphaNum_def byte_le_def)

lemma demo_expand:
  "expand [(''FOO'', ''bar'')] demo_world ''FOO'' = ''bar''"
  "expand [(''FOO'', ''bar'')] demo_world ''DIR'' = ''src''"
  "expand [(''FOO'', ''bar'')] demo_world ''NONE'' = []"
  "expand [] demo_world ''FOO'' = ''baz''"
  "expand [] demo_world ''DIR'' = ''src''"
  "expand [] demo_world ''NONE'' = []"
  by (simp_all add: expand_def Getenv_def demo_world_def)

lemma demo_Expand:
  "map (\<lambda>a. Expand a (expand [(''FOO'', ''bar'')] demo_world))
       [''$FOO'', ''$DIR/*.go'', ''*.xyz'', ''$NONE''] = [''bar'', ''src/*.go'', ''*.xyz'', []]"
  "map (\<lambda>a. Expand a (expand [] demo_world))
       [''$FOO'', ''$DIR/*.go'', ''*.xyz'', ''$NONE''] = [''baz'', ''src/*.go'', ''*.xyz'', []]"
  by (simp_all add: demo_getShellName demo_expand)

lemma demo_expandGlob:
  "expandGlob demo_world [''bar'', ''src/*.go'', ''*.xyz'', []] = Inr [''bar'', ''src/main.go'', ''*.xyz'', []]"
  "expandGlob demo_world [''baz'', ''src/*.go'', ''*.xyz'', []] = Inr [''baz'', ''src/main.go'', ''*.xyz'', []]"
  by (simp_all add: expandGlob_def demo_world_def demo_glob_def)

lemma demo_Expand_cmd:
  "Expand ''grep'' f = ''grep''"
  "Expand ''echo'' f = ''echo''"
  "Expand ''false'' f = ''false''"
  "Expand ''nosuch'' f = ''nosuch''"
  by simp_all

lemma demo_command_result:
  "p_result (command demo_world ''grep'' xs e) = Some (ExitError (WExited 2))"
  "p_result (command demo_world ''false'' xs e) = Some (ExitError (WExited 1))"
  "p_result (command demo_world ''echo'' xs e) = None"
  "p_result (command demo_world ''nosuch'' xs e) =
     Some (LaunchError (''exec: '' @ dquote @ ''nosuch'' @ dquote @ '': executable file not found in $PATH''))"
  "p_stdout (command demo_world ''echo'' xs e) = Join xs '' '' @ newline"
  by (simp_all add: demo_world_def demo_command_def)

lemma demo_itoa: "itoa 1 = ''1''" "itoa 2 = ''2''"
  by code_simp+

subsection \<open>Exit codes\<close>

text \<open>
  Claim C1. When the command is started (the glob expansion of the expanded arguments
  succeeds) and \<^verbatim>\<open>Cmd.Run\<close> reports that it exited with status \<open>N\<close>, from 1 to 255,
  \<^verbatim>\<open>Exec\<close> returns \<open>ran = true\<close> and the failure made by \<^verbatim>\<open>mg.Fatalf\<close> with code \<open>N\<close>,
  whose message names the expanded command line and the code; \<^verbatim>\<open>ExitStatus\<close> reads
  \<open>N\<close> back from the returned error.
\<close>

theorem Exec_nonzero_exit_code:
  assumes "wf_slice (heap w) args"
    and "expandGlob w (map (\<lambda>a. Expand a (expand env w)) (slice_elems (heap w) args)) = Inr expanded"
    and "p_result (command w (Expand cmd (expand env w)) expanded
                     (Environ w @ map (\<lambda>(k, v). k @ ''='' @ v) env)) = Some (ExitError (WExited N))"
    and "1 \<le> N" and "N \<le> 255"
  shows "fst (Exec env so se cmd args w) =
           (True, Some (Fatal N
              (''running '' @ dquote @ Expand cmd (expand env w) @ '' ''
                 @ Join (map (\<lambda>a. Expand a (expand env w)) (slice_elems (heap w) args)) '' '' @ dquote
                 @ '' failed with exit code '' @ itoa N)))
         \<and> ExitStatus (snd (fst (Exec env so se cmd args w))) = N"
  using Exec_started(1) [OF assms(1) assms(2), of so se cmd] assms(3)
  by simp

theorem Exec_nonzero_exit_code_witness:
  "fst (Exec [(''FOO'', ''bar'')] NilWriter OsStderr ''grep'' demo_args demo_world) =
     (True, Some (Fatal 2 (''running '' @ dquote @ ''grep bar src/*.go *.xyz '' @ dquote
                             @ '' failed with exit code 2'')))
   \<and> ExitStatus (snd (fst (Exec [(''FOO'', ''bar'')] NilWriter OsStderr ''grep'' demo_args demo_world))) = 2"
proof -
  have g: "expandGlob demo_world
             (map (\<lambda>a. Expand a (expand [(''FOO'', ''bar'')] demo_world))
                (slice_elems (heap demo_world) demo_args)) = Inr [''bar'', ''src/main.go'', ''*.xyz'', []]"
    by (simp only: demo_elems demo_Expand demo_expandGlob)
  have r: "p_result (command demo_world (Expand ''grep'' (expand [(''FOO'', ''bar'')] demo_world))
                       [''bar'', ''src/main.go'', ''*.xyz'', []]
                       (Environ demo_world @ map (\<lambda>(k, v). k @ ''='' @ v) [(''FOO'', ''bar'')])) =
             Some (ExitError (WExited 2))"
    by (simp only: demo_Expand_cmd demo_command_result)
  show ?thesis
    using Exec_nonzero_exit_code [OF demo_wf g r, of NilWriter OsStderr,
        unfolded demo_elems demo_Expand demo_Expand_cmd]
    by (simp add: demo_itoa)
qed

subsection \<open>Which errors count as a process that ran\<close>

text \<open>
  Claim C2, as stated, fails. \<^verbatim>\<open>CmdRan\<close> is false for every error that is not an
  \<^verbatim>\<open>*exec.ExitError\<close>, whatever the error says: in the small world \<^verbatim>\<open>false\<close> is
  started and exits with status 1, \<^verbatim>\<open>Exec\<close> returns \<open>ran = true\<close> with the exit-code
  failure, and \<^verbatim>\<open>CmdRan\<close> of that very failure is false.
\<close>

theorem CmdRan_Fatal_counterexample:
  "fst (Exec [] NilWriter OsStderr ''false'' nil_slice demo_world) =
     (True, Some (Fatal 1 (''running '' @ dquote @ ''false '' @ dquote @ '' failed with exit code 1'')))
   \<and> CmdRan (Some (Fatal 1 (''running '' @ dquote @ ''false '' @ dquote @ '' failed with exit code 1'')))
       = False"
proof -
  have wf: "wf_slice (heap demo_world) nil_slice"
    by (simp add: wf_slice_def nil_slice_def)
  have s: "slice_elems (heap demo_world) nil_slice = []"
    by (simp add: slice_elems_def nil_slice_def)
  have g: "expandGlob demo_world
             (map (\<lambda>a. Expand a (expand [] demo_world)) (slice_elems (heap demo_world) nil_slice)) = Inr []"
    by (simp add: s expandGlob_def)
  show ?thesis
    using Exec_started(1) [OF wf g, of NilWriter OsStderr "''false''", unfolded s demo_Expand_cmd]
    by (simp add: demo_command_result demo_itoa)
qed

text \<open>
  Claim C2, amended. \<^verbatim>\<open>CmdRan\<close> is true for nil and for every \<^verbatim>\<open>*exec.ExitError\<close> of a
  process that exited, whatever the exit code; it is false for every error of another
  type, launch failures and unrecognized errors alike. The \<open>ran\<close> result of \<^verbatim>\<open>Exec\<close> is
  \<^verbatim>\<open>CmdRan\<close> of what \<^verbatim>\<open>Cmd.Run\<close> returned when the command was started, and false when the
  glob expansion failed.
\<close>

theorem CmdRan_by_error_type:
  "CmdRan None
   \<and> (\<forall>n. CmdRan (Some (ExitError (WExited n))))
   \<and> (\<forall>e. (\<forall>ee. e \<noteq> ExitError ee) \<longrightarrow> \<not> CmdRan (Some e))
   \<and> (wf_slice (heap w) args \<and>
        expandGlob w (map (\<lambda>a. Expand a (expand env w)) (slice_elems (heap w) args)) = Inr expanded
        \<longrightarrow> fst (fst (Exec env so se cmd args w)) =
              CmdRan (p_result (command w (Expand cmd (expand env w)) expanded
                                  (Environ w @ map (\<lambda>(k, v). k @ ''='' @ v) env))))
   \<and> (wf_slice (heap w) args \<and>
        expandGlob w (map (\<lambda>a. Expand a (expand env w)) (slice_elems (heap w) args)) = Inl err
        \<longrightarrow> fst (fst (Exec env so se cmd args w)) = False)"
proof -
  have a: "\<forall>e. (\<forall>ee. e \<noteq> ExitError ee) \<longrightarrow> \<not> CmdRan (Some e)"
  proof (intro allI impI)
    fix e :: error
    assume "\<forall>ee. e \<noteq> ExitError ee"
    then show "\<not> CmdRan (Some e)" by (cases e) simp_all
  qed
  have b: "fst (fst (Exec env so se cmd args w)) =
              CmdRan (p_result (command w (Expand cmd (expand env w)) expanded
                                  (Environ w @ map (\<lambda>(k, v). k @ ''='' @ v) env)))"
    if "wf_slice (heap w) args"
      and "expandGlob w (map (\<lambda>a. Expand a (expand env w)) (slice_elems (heap w) args)) = Inr expanded"
    using Exec_started(1) [OF that, of so se cmd]
    by (simp split: option.splits)
  have c: "fst (fst (Exec env so se cmd args w)) = False"
    if "wf_slice (heap w) args"
      and "expandGlob w (map (\<lambda>a. Expand a (expand env w)) (slice_elems (heap w) args)) = Inl err"
    using Exec_glob_error [OF that, of so se cmd] by simp
  show ?thesis
    using a b c by simp
qed

theorem CmdRan_by_error_type_witness:
  "CmdRan None
   \<and> CmdRan (Some (ExitError (WExited 3)))
   \<and> \<not> CmdRan (Some (LaunchError ''fork/exec ./tool: permission denied''))
   \<and> \<not> CmdRan (Some (OtherError ''io: read/write on closed pipe''))
   \<and> fst (fst (Exec [] NilWriter OsStderr ''nosuch'' demo_args demo_world)) = False
   \<and> fst (fst (Exec [] NilWriter OsStderr ''grep'' demo_args demo_world)) = True"
proof -
  have g: "expandGlob demo_world
             (map (\<lambda>a. Expand a (expand [] demo_world))
                (slice_elems (heap demo_world) demo_args)) = Inr [''baz'', ''src/main.go'', ''*.xyz'', []]"
    by (simp only: demo_elems demo_Expand demo_expandGlob)
  note t = CmdRan_by_error_type [where w = demo_world and args = demo_args and env = "[]"
      and expanded = "[''baz'', ''src/main.go'', ''*.xyz'', []]" and so = NilWriter and se = OsStderr]
  from t [where cmd = "''nosuch''"] t [where cmd = "''grep''"] demo_wf g
  show ?thesis
    by (simp add: demo_Expand_cmd demo_command_result)
qed

text \<open>
  Claim C3, as stated, fails. \<^verbatim>\<open>Exec\<close> takes any \<^verbatim>\<open>io.Writer\<close>. When the writer for
  standard output fails, a command that prints and exits with status 0 makes \<^verbatim>\<open>Cmd.Run\<close>
  return the writer's error; that error is no \<^verbatim>\<open>*exec.ExitError\<close>, so \<^verbatim>\<open>CmdRan\<close> is false
  of it, and \<^verbatim>\<open>Exec\<close> returns \<open>ran = false\<close> and an error, although the command exited
  with status 0.
\<close>

theorem Exec_exit_zero_counterexample:
  "p_state (command demo_world_sink_fails ''echo'' [''hello''] (Environ demo_world_sink_fails)) =
     Some (WExited 0)
   \<and> launched (snd (Exec [] (ErrWriter ''disk full'') OsStderr ''echo'' demo_baked
                      demo_world_sink_fails)) =
       [(''echo'', [''hello''], Environ demo_world_sink_fails)]
   \<and> fst (Exec [] (ErrWriter ''disk full'') OsStderr ''echo'' demo_baked demo_world_sink_fails) =
       (False, Some (Errorf (''failed to run '' @ dquote @ ''echo hello: disk full'' @ dquote)))"
proof -
  let ?w = "demo_world_sink_fails"
  have h: "heap ?w = [[''hello'']]" "launched ?w = []" "glob ?w = demo_glob"
    "command ?w = demo_command_sink_fails"
    by (simp_all add: demo_world_sink_fails_def demo_world_def)
  have wf: "wf_slice (heap ?w) demo_baked"
    by (simp add: h wf_slice_def demo_baked_def)
  have el: "slice_elems (heap ?w) demo_baked = [''hello'']"
    by (simp add: h slice_elems_def demo_baked_def)
  have ex: "map (\<lambda>a. Expand a (expand [] ?w)) [''hello''] = [''hello'']"
    by simp
  have g: "expandGlob ?w (map (\<lambda>a. Expand a (expand [] ?w)) (slice_elems (heap ?w) demo_baked)) =
             Inr [''hello'']"
    unfolding el ex by (simp add: expandGlob_def h demo_glob_def)
  have r: "command ?w ''echo'' [''hello''] (Environ ?w) =
             \<lparr>p_stdout = ''hello'' @ newline, p_stderr = [], p_state = Some (WExited 0),
              p_result = Some (OtherError ''disk full'')\<rparr>"
    by (simp add: h demo_command_sink_fails_def)
  note s = Exec_started [OF wf g, of "ErrWriter ''disk full''" OsStderr "''echo''",
      unfolded el ex demo_Expand_cmd]
  have a: "launched (snd (Exec [] (ErrWriter ''disk full'') OsStderr ''echo'' demo_baked ?w)) =
             [(''echo'', [''hello''], Environ ?w)]"
    using s(2) by (simp add: h)
  have b: "fst (Exec [] (ErrWriter ''disk full'') OsStderr ''echo'' demo_baked ?w) =
             (False, Some (Errorf (''failed to run '' @ dquote @ ''echo hello: disk full'' @ dquote)))"
    using s(1) by (simp add: r)
  show ?thesis
    using a b by (simp add: r)
qed

text \<open>
  Claim C3, amended. When the command is started and \<^verbatim>\<open>Cmd.Run\<close> returns nil (the command
  exited with status 0 and its output reached the writers), \<^verbatim>\<open>Exec\<close> returns
  \<open>ran = true\<close> and a nil error; and whenever \<^verbatim>\<open>Exec\<close> returns a nil error, \<open>ran\<close> is
  true.
\<close>

theorem Exec_exit_zero:
  "(wf_slice (heap w) args \<and>
    expandGlob w (map (\<lambda>a. Expand a (expand env w)) (slice_elems (heap w) args)) = Inr expanded \<and>
    p_result (command w (Expand cmd (expand env w)) expanded
                (Environ w @ map (\<lambda>(k, v). k @ ''='' @ v) env)) = None
    \<longrightarrow> fst (Exec env so se cmd args w) = (True, None))
   \<and> (snd (fst (Exec env so se cmd args w)) = None \<longrightarrow> fst (fst (Exec env so se cmd args w)) = True)"
proof -
  have a: "fst (Exec env so se cmd args w) = (True, None)"
    if "wf_slice (heap w) args"
      and "expandGlob w (map (\<lambda>a. Expand a (expand env w)) (slice_elems (heap w) args)) = Inr expanded"
      and "p_result (command w (Expand cmd (expand env w)) expanded
                (Environ w @ map (\<lambda>(k, v). k @ ''='' @ v) env)) = None"
    using Exec_started(1) [OF that(1) that(2), of so se cmd] that(3) by simp
  have b: "snd (fst (Exec env so se cmd args w)) = None \<longrightarrow> fst (fst (Exec env so se cmd args w)) = True"
    by (simp add: Exec_def Let_def split: option.splits)
  show ?thesis
    using a b by blast
qed

theorem Exec_exit_zero_witness:
  "fst (Exec [(''FOO'', ''bar'')] NilWriter OsStderr ''echo'' demo_args demo_world) = (True, None)"
proof -
  have g: "expandGlob demo_world
             (map (\<lambda>a. Expand a (expand [(''FOO'', ''bar'')] demo_world))
                (slice_elems (heap demo_world) demo_args)) = Inr [''bar'', ''src/main.go'', ''*.xyz'', []]"
    by (simp only: demo_elems demo_Expand demo_expandGlob)
  have r: "p_result (command demo_world (Expand ''echo'' (expand [(''FOO'', ''bar'')] demo_world))
                       [''bar'', ''src/main.go'', ''*.xyz'', []]
                       (Environ demo_world @ map (\<lambda>(k, v). k @ ''='' @ v) [(''FOO'', ''bar'')])) = None"
    by (simp only: demo_Expand_cmd demo_command_result)
  show ?thesis
    using Exec_exit_zero [where w = demo_world and args = demo_args and env = "[(''FOO'', ''bar'')]"
        and expanded = "[''bar'', ''src/main.go'', ''*.xyz'', []]" and cmd = "''echo''"
        and so = NilWriter and se = OsStderr] demo_wf g r
    by blast
qed

text \<open>
  Claim C4. When \<^verbatim>\<open>Cmd.Run\<close> reports that the command could not be started,
  \<^verbatim>\<open>Exec\<close> returns \<open>ran = false\<close> and an error made by \<^verbatim>\<open>fmt.Errorf\<close> (not the
  exit-code failure of \<^verbatim>\<open>mg.Fatalf\<close>), whose message says that running the expanded
  command line failed and ends with the message of the underlying error.
\<close>

theorem Exec_launch_failure:
  assumes "wf_slice (heap w) args"
    and "expandGlob w (map (\<lambda>a. Expand a (expand env w)) (slice_elems (heap w) args)) = Inr expanded"
    and "p_result (command w (Expand cmd (expand env w)) expanded
                     (Environ w @ map (\<lambda>(k, v). k @ ''='' @ v) env)) = Some (LaunchError m)"
  shows "fst (Exec env so se cmd args w) =
           (False, Some (Errorf
              (''failed to run '' @ dquote @ Expand cmd (expand env w) @ '' ''
                 @ Join (map (\<lambda>a. Expand a (expand env w)) (slice_elems (heap w) args)) '' ''
                 @ '': '' @ m @ dquote)))"
  using Exec_started(1) [OF assms(1) assms(2), of so se cmd] assms(3)
  by simp

theorem Exec_launch_failure_witness:
  "fst (Exec [] NilWriter OsStderr ''nosuch'' demo_args demo_world) =
     (False, Some (Errorf (''failed to run '' @ dquote @ ''nosuch baz src/*.go *.xyz : exec: ''
        @ dquote @ ''nosuch'' @ dquote @ '': executable file not found in $PATH'' @ dquote)))"
proof -
  have g: "expandGlob demo_world
             (map (\<lambda>a. Expand a (expand [] demo_world))
                (slice_elems (heap demo_world) demo_args)) = Inr [''baz'', ''src/main.go'', ''*.xyz'', []]"
    by (simp only: demo_elems demo_Expand demo_expandGlob)
  have r: "p_result (command demo_world (Expand ''nosuch'' (expand [] demo_world))
                       [''baz'', ''src/main.go'', ''*.xyz'', []]
                       (Environ demo_world @ map (\<lambda>(k, v). k @ ''='' @ v) [])) =
             Some (LaunchError (''exec: '' @ dquote @ ''nosuch'' @ dquote @ '': executable file not found in $PATH''))"
    by (simp only: demo_Expand_cmd demo_command_result)
  show ?thesis
    using Exec_launch_failure [OF demo_wf g r, of NilWriter OsStderr,
        unfolded demo_elems demo_Expand demo_Expand_cmd]
    by simp
qed

subsection \<open>Expansion of variables\<close>

lemma isAlphaNum_not_brace: "isAlphaNum c \<Longrightarrow> c \<noteq> CHR ''{''"
  by (auto simp: isAlphaNum_def byte_le_def)

lemma getShellName_name:
  assumes "name \<noteq> []" and "\<forall>c\<in>set name. isAlphaNum c" and "\<not> isShellSpecialVar (hd name)"
    and "rest = [] \<or> \<not> isAlphaNum (hd rest)"
  shows "getShellName (name @ rest) = (name, length name)"
proof -
  have h: "hd (name @ rest) = hd name"
    using assms(1) by simp
  have "isAlphaNum (hd name)"
    using assms(1,2) by simp
  then have b: "hd name \<noteq> CHR ''{''"
    by (rule isAlphaNum_not_brace)
  have "takeWhile isAlphaNum rest = []"
    using assms(4) by (cases rest) auto
  then have t: "takeWhile isAlphaNum (name @ rest) = name"
    using assms(2) by (simp add: takeWhile_append2)
  show ?thesis
    unfolding getShellName_def h using b assms(3) by (simp add: t)
qed

lemma Expand_name:
  assumes "name \<noteq> []" and "\<forall>c\<in>set name. isAlphaNum c" and "\<not> isShellSpecialVar (hd name)"
    and "rest = [] \<or> \<not> isAlphaNum (hd rest)"
  shows "Expand (CHR ''$'' # name @ rest) f = f name @ Expand rest f"
  using assms(1) by (simp add: getShellName_name [OF assms])

lemma expand_lookup:
  "expand env w =
     (\<lambda>name. case map_of env name of Some v \<Rightarrow> v
              | None \<Rightarrow> (case map_of (environ w) name of Some v \<Rightarrow> v | None \<Rightarrow> []))"
  by (rule ext) (simp add: expand_def Getenv_def split: option.splits)

text \<open>
  Claim C5. The function that \<^verbatim>\<open>Exec\<close> hands to \<^verbatim>\<open>os.Expand\<close> looks a name up in the
  override map first, in the environment of the process only when the map has no
  entry, and gives the empty string when neither has one. \<^verbatim>\<open>os.Expand\<close> replaces a
  dollar sign followed by a name (letters, digits and underscores, not starting with a
  digit, up to the first byte that is none of these) by what that function gives for the
  name, and copies every byte that is not a dollar sign. The process that
  \<^verbatim>\<open>Exec\<close> starts gets the command name expanded so, and the arguments expanded so
  before the glob expansion.
\<close>

theorem Exec_expands_variables:
  fixes env :: env_map and w :: world
  defines "look \<equiv> (\<lambda>name. case map_of env name of Some v \<Rightarrow> v
                      | None \<Rightarrow> (case map_of (environ w) name of Some v \<Rightarrow> v | None \<Rightarrow> []))"
  shows "expand env w = look
     \<and> (\<forall>name rest. name \<noteq> [] \<and> (\<forall>c\<in>set name. isAlphaNum c) \<and> \<not> isShellSpecialVar (hd name)
            \<and> (rest = [] \<or> \<not> isAlphaNum (hd rest))
          \<longrightarrow> Expand (CHR ''$'' # name @ rest) look = look name @ Expand rest look)
     \<and> (\<forall>c s. c \<noteq> CHR ''$'' \<longrightarrow> Expand (c # s) look = c # Expand s look)
     \<and> (wf_slice (heap w) args
          \<and> expandGlob w (map (\<lambda>a. Expand a look) (slice_elems (heap w) args)) = Inr expanded
          \<longrightarrow> launched (snd (Exec env so se cmd args w)) =
                launched w @ [(Expand cmd look, expanded,
                               Environ w @ map (\<lambda>(k, v). k @ ''='' @ v) env)])"
proof -
  have a: "expand env w = look"
    unfolding look_def by (rule expand_lookup)
  have b: "Expand (CHR ''$'' # name @ rest) look = look name @ Expand rest look"
    if "name \<noteq> [] \<and> (\<forall>c\<in>set name. isAlphaNum c) \<and> \<not> isShellSpecialVar (hd name)
            \<and> (rest = [] \<or> \<not> isAlphaNum (hd rest))" for name rest
    using that by (intro Expand_name) simp_all
  have c: "launched (snd (Exec env so se cmd args w)) =
                launched w @ [(Expand cmd look, expanded,
                               Environ w @ map (\<lambda>(k, v). k @ ''='' @ v) env)]"
    if "wf_slice (heap w) args"
      and "expandGlob w (map (\<lambda>a. Expand a look) (slice_elems (heap w) args)) = Inr expanded"
    using Exec_started(2) [of w args env expanded so se cmd] that
    by (simp only: a)
  show ?thesis
    using a b c by simp
qed


theorem Exec_expands_variables_witness:
  "Expand ''$FOO'' (expand [(''FOO'', ''bar'')] demo_world) = ''bar''
   \<and> Expand ''$FOO'' (expand [] demo_world) = ''baz''
   \<and> Expand ''$NONE'' (expand [] demo_world) = []
   \<and> launched (snd (Exec [(''FOO'', ''bar'')] NilWriter OsStderr ''echo'' demo_args demo_world)) =
       [(''echo'', [''bar'', ''src/main.go'', ''*.xyz'', []], [''FOO=baz'', ''DIR=src'', ''FOO=bar''])]"
proof -
  note t = Exec_expands_variables [where w = demo_world and args = demo_args
      and expanded = "[''bar'', ''src/main.go'', ''*.xyz'', []]" and so = NilWriter and se = OsStderr
      and cmd = "''echo''"]
  note t1 = t [where env = "[(''FOO'', ''bar'')]"]
  note t0 = t [where env = "[]"]
  note a1 = t1 [THEN conjunct1, symmetric]
  note a0 = t0 [THEN conjunct1, symmetric]
  note b1 = t1 [THEN conjunct2, THEN conjunct1, rule_format, unfolded a1 a1 [THEN fun_cong]]
  note b0 = t0 [THEN conjunct2, THEN conjunct1, rule_format, unfolded a0 a0 [THEN fun_cong]]
  note d1 = t1 [THEN conjunct2, THEN conjunct2, THEN conjunct2, rule_format, unfolded a1 a1 [THEN fun_cong]]
  have e1: "Expand (CHR ''$'' # ''FOO'' @ []) (expand [(''FOO'', ''bar'')] demo_world)
            = expand [(''FOO'', ''bar'')] demo_world ''FOO'' @ Expand [] (expand [(''FOO'', ''bar'')] demo_world)"
    by (rule b1) (simp add: isAlphaNum_def byte_le_def isShellSpecialVar_def)
  have e2: "Expand (CHR ''$'' # ''FOO'' @ []) (expand [] demo_world)
            = expand [] demo_world ''FOO'' @ Expand [] (expand [] demo_world)"
    by (rule b0) (simp add: isAlphaNum_def byte_le_def isShellSpecialVar_def)
  have e3: "Expand (CHR ''$'' # ''NONE'' @ []) (expand [] demo_world)
            = expand [] demo_world ''NONE'' @ Expand [] (expand [] demo_world)"
    by (rule b0) (simp add: isAlphaNum_def byte_le_def isShellSpecialVar_def)
  have g: "expandGlob demo_world
             (map (\<lambda>a. Expand a (expand [(''FOO'', ''bar'')] demo_world))
                (slice_elems (heap demo_world) demo_args)) = Inr [''bar'', ''src/main.go'', ''*.xyz'', []]"
    by (simp only: demo_elems demo_Expand demo_expandGlob)
  have l: "launched (snd (Exec [(''FOO'', ''bar'')] NilWriter OsStderr ''echo'' demo_args demo_world)) =
             launched demo_world @ [(Expand ''echo'' (expand [(''FOO'', ''bar'')] demo_world),
                [''bar'', ''src/main.go'', ''*.xyz'', []],
                Environ demo_world @ map (\<lambda>(k, v). k @ ''='' @ v) [(''FOO'', ''bar'')])]"
    by (rule d1) (simp only: demo_wf g)
  have env: "launched demo_world = []" "Environ demo_world = [''FOO=baz'', ''DIR=src'']"
    by (simp_all add: demo_world_def Environ_def)
  have x: "''$FOO'' = CHR ''$'' # ''FOO'' @ []" "''$NONE'' = CHR ''$'' # ''NONE'' @ []"
    by simp_all
  show ?thesis
    unfolding x e1 e2 e3 l demo_expand demo_Expand_cmd env
    by simp
qed

subsection \<open>Glob expansion\<close>

lemma demo_glob_values:
  "glob demo_world ''*.go'' = Inr [''a.go'', ''b.go'']"
  "glob demo_world ''*.xyz'' = Inr []"
  "glob demo_world ''-l'' = Inr []"
  "glob demo_world ''['' = Inl ErrBadPattern"
  by (simp_all add: demo_world_def demo_glob_def)

lemma demo_glob_error: "glob demo_world p = Inl e \<Longrightarrow> e = ErrBadPattern"
  by (simp add: demo_world_def demo_glob_def split: if_splits)

text \<open>
  Claim C6. \<^verbatim>\<open>expandGlob\<close> treats each argument on its own and keeps the order: when no
  pattern is malformed, the result is the concatenation, over the arguments, of the
  matches of the argument when there are some and of the argument itself when there are
  none. \<^verbatim>\<open>run\<close> gives the command name to the process as it is and never hands it to
  \<^verbatim>\<open>filepath.Glob\<close>.
\<close>

theorem expandGlob_each_argument:
  "((\<forall>v\<in>set vs. \<exists>ms. glob w v = Inr ms) \<longrightarrow>
      expandGlob w vs =
        Inr (concat (map (\<lambda>v. case glob w v of Inr ms \<Rightarrow> if ms = [] then [v] else ms
                                               | Inl e \<Rightarrow> [v]) vs)))
   \<and> (expandGlob w (slice_elems (heap w) args) = Inr expanded \<longrightarrow>
        launched (snd (run env so se cmd args w)) =
          launched w @ [(cmd, expanded, Environ w @ map (\<lambda>(k, v). k @ ''='' @ v) env)])"
proof -
  have a: "expandGlob w vs =
        Inr (concat (map (\<lambda>v. case glob w v of Inr ms \<Rightarrow> if ms = [] then [v] else ms
                                               | Inl e \<Rightarrow> [v]) vs))"
    if "\<forall>v\<in>set vs. \<exists>ms. glob w v = Inr ms"
    unfolding expandGlob_def using expandGlob_loop_ok [of vs w "[]"] that by simp
  have b: "launched (snd (run env so se cmd args w)) =
          launched w @ [(cmd, expanded, Environ w @ map (\<lambda>(k, v). k @ ''='' @ v) env)]"
    if "expandGlob w (slice_elems (heap w) args) = Inr expanded"
    using that by (rule run_started(2))
  show ?thesis
    using a b by blast
qed

theorem expandGlob_each_argument_witness:
  "expandGlob demo_world [''-l'', ''*.go'', ''*.xyz''] = Inr [''-l'', ''a.go'', ''b.go'', ''*.xyz'']
   \<and> launched (snd (run [] NilWriter OsStderr ''*.go''
        \<lparr>s_arr = 0, s_off = 0, s_len = 3, s_cap = 3\<rparr>
        (demo_world\<lparr>heap := [[''-l'', ''*.go'', ''*.xyz'']]\<rparr>))) =
       [(''*.go'', [''-l'', ''a.go'', ''b.go'', ''*.xyz''], [''FOO=baz'', ''DIR=src''])]"
proof -
  let ?w = "demo_world\<lparr>heap := [[''-l'', ''*.go'', ''*.xyz'']]\<rparr>"
  let ?s = "\<lparr>s_arr = 0, s_off = 0, s_len = 3, s_cap = 3\<rparr>"
  have all: "\<forall>v\<in>set [''-l'', ''*.go'', ''*.xyz'']. \<exists>ms. glob demo_world v = Inr ms"
    by (simp add: demo_glob_values)
  have a: "expandGlob demo_world [''-l'', ''*.go'', ''*.xyz''] = Inr [''-l'', ''a.go'', ''b.go'', ''*.xyz'']"
    using expandGlob_each_argument [where w = demo_world and vs = "[''-l'', ''*.go'', ''*.xyz'']",
        THEN conjunct1, THEN mp, OF all]
    by (simp add: demo_glob_values)
  have el: "slice_elems (heap ?w) ?s = [''-l'', ''*.go'', ''*.xyz'']"
    by (simp add: slice_elems_def)
  have g: "expandGlob ?w (slice_elems (heap ?w) ?s) = Inr [''-l'', ''a.go'', ''b.go'', ''*.xyz'']"
    by (simp only: el expandGlob_heap a)
  have env: "launched ?w = []" "Environ ?w = [''FOO=baz'', ''DIR=src'']"
    by (simp_all add: demo_world_def Environ_def)
  have b: "launched (snd (run [] NilWriter OsStderr ''*.go'' ?s ?w)) =
       [(''*.go'', [''-l'', ''a.go'', ''b.go'', ''*.xyz''], [''FOO=baz'', ''DIR=src''])]"
    using expandGlob_each_argument [where w = ?w and args = ?s
        and expanded = "[''-l'', ''a.go'', ''b.go'', ''*.xyz'']" and env = "[]" and so = NilWriter
        and se = OsStderr and cmd = "''*.go''", THEN conjunct2, THEN mp, OF g]
    by (simp only: env) simp
  show ?thesis
    using a b by simp
qed

text \<open>
  Claim C7. The pattern that \<^verbatim>\<open>Exec\<close> matches against the file system is the argument
  after variable expansion: when no expanded argument is a malformed pattern, the
  arguments of the process are the concatenation of \<open>glob (Expand a)\<close> over the arguments
  \<open>a\<close>, where an expanded argument without matches stands for itself.
\<close>

theorem Exec_expand_then_glob:
  assumes "wf_slice (heap w) args"
    and "\<forall>a\<in>set (slice_elems (heap w) args). \<exists>ms. glob w (Expand a (expand env w)) = Inr ms"
  shows "launched (snd (Exec env so se cmd args w)) =
           launched w @
             [(Expand cmd (expand env w),
               concat (map (\<lambda>a. case glob w (Expand a (expand env w)) of
                                  Inr ms \<Rightarrow> if ms = [] then [Expand a (expand env w)] else ms
                                | Inl e \<Rightarrow> [Expand a (expand env w)])
                           (slice_elems (heap w) args)),
               Environ w @ map (\<lambda>(k, v). k @ ''='' @ v) env)]"
proof -
  let ?vs = "map (\<lambda>a. Expand a (expand env w)) (slice_elems (heap w) args)"
  have "\<And>v. v \<in> set ?vs \<Longrightarrow> \<exists>ms. glob w v = Inr ms"
    using assms(2) by auto
  then have "expandGlob w ?vs =
     Inr (concat (map (\<lambda>v. case glob w v of Inr ms \<Rightarrow> if ms = [] then [v] else ms
                                            | Inl e \<Rightarrow> [v]) ?vs))"
    unfolding expandGlob_def using expandGlob_loop_ok [of ?vs w "[]"] by simp
  from Exec_started(2) [OF assms(1) this, of so se cmd]
  show ?thesis
    by (simp add: comp_def)
qed

theorem Exec_expand_then_glob_witness:
  "launched (snd (Exec [] NilWriter OsStderr ''echo'' demo_args demo_world)) =
     [(''echo'', [''baz'', ''src/main.go'', ''*.xyz'', []], [''FOO=baz'', ''DIR=src''])]"
proof -
  have gl: "glob demo_world ''baz'' = Inr []" "glob demo_world ''src/*.go'' = Inr [''src/main.go'']"
    "glob demo_world ''*.xyz'' = Inr []" "glob demo_world [] = Inr []"
    by (simp_all add: demo_world_def demo_glob_def)
  have ex: "Expand ''$FOO'' (expand [] demo_world) = ''baz''"
    "Expand ''$DIR/*.go'' (expand [] demo_world) = ''src/*.go''"
    "Expand ''*.xyz'' (expand [] demo_world) = ''*.xyz''"
    "Expand ''$NONE'' (expand [] demo_world) = []"
    using demo_Expand(2) by simp_all
  have all: "\<forall>a\<in>set (slice_elems (heap demo_world) demo_args).
               \<exists>ms. glob demo_world (Expand a (expand [] demo_world)) = Inr ms"
    unfolding demo_elems by (simp add: ex gl del: Expand.simps)
  have env: "launched demo_world = []" "Environ demo_world = [''FOO=baz'', ''DIR=src'']"
    by (simp_all add: demo_world_def Environ_def)
  show ?thesis
    using Exec_expand_then_glob [OF demo_wf all, of NilWriter OsStderr "''echo''",
        unfolded demo_elems demo_Expand_cmd env]
    by (simp add: ex gl del: Expand.simps)
qed

text \<open>
  Claim C9. When an argument, after variable expansion, is a malformed pattern, the
  error of the first such pattern ends \<^verbatim>\<open>expandGlob\<close>; \<^verbatim>\<open>run\<close> returns it with
  \<open>ran = false\<close> and leaves the world as it was; \<^verbatim>\<open>Exec\<close> returns \<open>ran = false\<close> and an
  error whose message ends with that error's message; no process is launched and nothing
  is written.
\<close>

theorem Exec_bad_pattern:
  assumes "wf_slice (heap w) args"
    and "a \<in> set (slice_elems (heap w) args)"
    and "glob w (Expand a (expand env w)) = Inl e0"
  shows "\<exists>b e. b \<in> set (slice_elems (heap w) args) \<and> glob w (Expand b (expand env w)) = Inl e
           \<and> expandGlob w (map (\<lambda>a. Expand a (expand env w)) (slice_elems (heap w) args)) = Inl e
           \<and> run env so se (Expand cmd (expand env w)) args
                (w\<lparr>heap := expand_args (expand env w) args [0..<s_len args] (heap w)\<rparr>) =
               ((False, 0, Some e),
                w\<lparr>heap := expand_args (expand env w) args [0..<s_len args] (heap w)\<rparr>)
           \<and> fst (Exec env so se cmd args w) =
               (False, Some (Errorf (''failed to run '' @ dquote @ Expand cmd (expand env w) @ '' ''
                  @ Join (map (\<lambda>a. Expand a (expand env w)) (slice_elems (heap w) args)) '' ''
                  @ '': '' @ Error e @ dquote)))
           \<and> launched (snd (Exec env so se cmd args w)) = launched w
           \<and> os_stdout (snd (Exec env so se cmd args w)) = os_stdout w
           \<and> os_stderr (snd (Exec env so se cmd args w)) = os_stderr w
           \<and> bufs (snd (Exec env so se cmd args w)) = bufs w"
proof -
  let ?f = "expand env w"
  let ?vs = "map (\<lambda>a. Expand a ?f) (slice_elems (heap w) args)"
  let ?w1 = "w\<lparr>heap := expand_args ?f args [0..<s_len args] (heap w)\<rparr>"
  have "Expand a ?f \<in> set ?vs"
    using assms(2) by simp
  from expandGlob_loop_err [OF this assms(3), of "[]"]
  obtain v e where v: "v \<in> set ?vs" "glob w v = Inl e" "expandGlob w ?vs = Inl e"
    unfolding expandGlob_def by blast
  from v(1) obtain b where b: "b \<in> set (slice_elems (heap w) args)" "v = Expand b ?f"
    by auto
  have el: "slice_elems (heap ?w1) args = ?vs"
    using assms(1) by (simp add: expand_args_elems)
  have "expandGlob ?w1 (slice_elems (heap ?w1) args) = Inl e"
    using v(3) by (simp only: el expandGlob_heap)
  then have r: "run env so se (Expand cmd ?f) args ?w1 = ((False, 0, Some e), ?w1)"
    by (rule run_glob_error)
  note x = Exec_glob_error [OF assms(1) v(3), of so se cmd]
  have "b \<in> set (slice_elems (heap w) args) \<and> glob w (Expand b ?f) = Inl e
           \<and> expandGlob w ?vs = Inl e
           \<and> run env so se (Expand cmd ?f) args ?w1 = ((False, 0, Some e), ?w1)
           \<and> fst (Exec env so se cmd args w) =
               (False, Some (Errorf (''failed to run '' @ dquote @ Expand cmd ?f @ '' ''
                  @ Join ?vs '' '' @ '': '' @ Error e @ dquote)))
           \<and> launched (snd (Exec env so se cmd args w)) = launched w
           \<and> os_stdout (snd (Exec env so se cmd args w)) = os_stdout w
           \<and> os_stderr (snd (Exec env so se cmd args w)) = os_stderr w
           \<and> bufs (snd (Exec env so se cmd args w)) = bufs w"
    using b v(2) v(3) r by (simp add: x)
  then show ?thesis by blast
qed

theorem Exec_bad_pattern_witness:
  "fst (Exec [] NilWriter OsStderr ''echo'' \<lparr>s_arr = 0, s_off = 0, s_len = 2, s_cap = 2\<rparr>
          (demo_world\<lparr>heap := [[''$FOO'', ''['']]\<rparr>)) =
     (False, Some (Errorf (''failed to run '' @ dquote @ ''echo baz [: syntax error in pattern'' @ dquote)))
   \<and> launched (snd (Exec [] NilWriter OsStderr ''echo'' \<lparr>s_arr = 0, s_off = 0, s_len = 2, s_cap = 2\<rparr>
          (demo_world\<lparr>heap := [[''$FOO'', ''['']]\<rparr>))) = []"
proof -
  let ?w = "demo_world\<lparr>heap := [[''$FOO'', ''['']]\<rparr>"
  let ?s = "\<lparr>s_arr = 0, s_off = 0, s_len = 2, s_cap = 2\<rparr>"
  have wf: "wf_slice (heap ?w) ?s"
    by (simp add: wf_slice_def)
  have el: "slice_elems (heap ?w) ?s = [''$FOO'', ''['']"
    by (simp add: slice_elems_def)
  have f: "expand [] ?w = expand [] demo_world"
    by (rule ext) (simp add: expand_def Getenv_def)
  have ex: "map (\<lambda>a. Expand a (expand [] ?w)) [''$FOO'', ''['']  = [''baz'', ''['']"
    unfolding f by (simp add: demo_getShellName demo_expand)
  have m: "''['' \<in> set (slice_elems (heap ?w) ?s)"
    by (simp only: el) simp
  have b: "glob ?w (Expand ''['' (expand [] ?w)) = Inl ErrBadPattern"
    by (simp add: demo_glob_values)
  have l: "launched ?w = []"
    by (simp add: demo_world_def)
  from Exec_bad_pattern [OF wf m b, of NilWriter OsStderr "''echo''"]
  obtain c e where c: "glob ?w (Expand c (expand [] ?w)) = Inl e"
    and r: "fst (Exec [] NilWriter OsStderr ''echo'' ?s ?w) =
               (False, Some (Errorf (''failed to run '' @ dquote @ Expand ''echo'' (expand [] ?w) @ '' ''
                  @ Join (map (\<lambda>a. Expand a (expand [] ?w)) (slice_elems (heap ?w) ?s)) '' ''
                  @ '': '' @ Error e @ dquote)))"
    and n: "launched (snd (Exec [] NilWriter OsStderr ''echo'' ?s ?w)) = launched ?w"
    by blast
  from c have e: "e = ErrBadPattern"
    by (intro demo_glob_error [of "Expand c (expand [] ?w)"]) simp
  show ?thesis
    using r n unfolding e el ex l demo_Expand_cmd by simp
qed

subsection \<open>Captured output\<close>

lemma Exec_snd:
  "snd (Exec env so se cmd args w) =
     snd (run env so se (Expand cmd (expand env w)) args
            (w\<lparr>heap := expand_args (expand env w) args [0..<s_len args] (heap w)\<rparr>))"
  by (simp add: Exec_def Let_def split: option.splits)

lemma run_buffer:
  assumes "expandGlob w (slice_elems (heap w) args) = Inr expanded"
  shows "bufs (snd (run env (Buffer b) OsStderr cmd args w)) =
           (bufs w)[b := bufs w ! b @
              p_stdout (command w cmd expanded (Environ w @ map (\<lambda>(k, v). k @ ''='' @ v) env))]"
  using assms by (simp add: run_def Let_def)

lemma Exec_buffer:
  assumes "wf_slice (heap w) args"
    and "expandGlob w (map (\<lambda>a. Expand a (expand env w)) (slice_elems (heap w) args)) = Inr expanded"
  shows "bufs (snd (Exec env (Buffer b) OsStderr cmd args w)) =
           (bufs w)[b := bufs w ! b @
              p_stdout (command w (Expand cmd (expand env w)) expanded
                          (Environ w @ map (\<lambda>(k, v). k @ ''='' @ v) env))]"
proof -
  let ?w1 = "w\<lparr>heap := expand_args (expand env w) args [0..<s_len args] (heap w)\<rparr>"
  have el: "slice_elems (heap ?w1) args = map (\<lambda>a. Expand a (expand env w)) (slice_elems (heap w) args)"
    using assms(1) by (simp add: expand_args_elems)
  have g: "expandGlob ?w1 (slice_elems (heap ?w1) args) = Inr expanded"
    using assms(2) by (simp only: el expandGlob_heap)
  show ?thesis
    unfolding Exec_snd run_buffer [OF g] by simp
qed

lemma expand_bufs [simp]: "expand env (w\<lparr>bufs := x\<rparr>) = expand env w"
  by (rule ext) (simp add: expand_def Getenv_def split: option.splits)

lemma Environ_bufs [simp]: "Environ (w\<lparr>bufs := x\<rparr>) = Environ w"
  by (simp add: Environ_def)

lemma expandGlob_bufs [simp]: "expandGlob (w\<lparr>bufs := x\<rparr>) vs = expandGlob w vs"
  unfolding expandGlob_def by (rule expandGlob_loop_cong) simp

lemma TrimSuffix_newline: "TrimSuffix (s @ newline) newline = s"
  by (simp add: TrimSuffix_def HasSuffix_def newline_def)

lemma TrimSuffix_no_newline:
  assumes "\<not> (\<exists>t. s = t @ newline)"
  shows "TrimSuffix s newline = s"
proof -
  have "\<not> HasSuffix s newline"
  proof
    assume h: "HasSuffix s newline"
    then have "s = take (length s - length newline) s @ newline"
      unfolding HasSuffix_def by (metis append_take_drop_id)
    with assms show False by blast
  qed
  then show ?thesis by (simp add: TrimSuffix_def)
qed

text \<open>
  Claim C8. \<^verbatim>\<open>OutputWith\<close> returns the standard output of the command it started with
  one newline cut off the end, and \<^verbatim>\<open>Output\<close> is \<^verbatim>\<open>OutputWith\<close> without overrides. The
  cut removes exactly one newline: a capture \<open>s\<close> followed by a newline gives \<open>s\<close>
  (so one of two newlines stays), and a capture that does not end in a newline is
  returned as it is.
\<close>

theorem Output_strips_one_newline:
  "(wf_slice (heap w) args
      \<and> expandGlob w (map (\<lambda>a. Expand a (expand env w)) (slice_elems (heap w) args)) = Inr expanded
    \<longrightarrow> fst (fst (OutputWith env cmd args w)) =
          TrimSuffix (p_stdout (command w (Expand cmd (expand env w)) expanded
                                  (Environ w @ map (\<lambda>(k, v). k @ ''='' @ v) env))) newline)
   \<and> Output cmd args w = OutputWith [] cmd args w
   \<and> (\<forall>s. TrimSuffix (s @ newline) newline = s)
   \<and> (\<forall>s. \<not> (\<exists>t. s = t @ newline) \<longrightarrow> TrimSuffix s newline = s)"
proof -
  have a: "fst (fst (OutputWith env cmd args w)) =
          TrimSuffix (p_stdout (command w (Expand cmd (expand env w)) expanded
                                  (Environ w @ map (\<lambda>(k, v). k @ ''='' @ v) env))) newline"
    if "wf_slice (heap w) args"
      and "expandGlob w (map (\<lambda>a. Expand a (expand env w)) (slice_elems (heap w) args)) = Inr expanded"
  proof -
    let ?w0 = "w\<lparr>bufs := bufs w @ [[]]\<rparr>"
    have wf: "wf_slice (heap ?w0) args"
      using that(1) by simp
    have g: "expandGlob ?w0 (map (\<lambda>a. Expand a (expand env ?w0)) (slice_elems (heap ?w0) args)) = Inr expanded"
      using that(2) by simp
    show ?thesis
      unfolding OutputWith_def Let_def Exec_buffer [OF wf g] by simp
  qed
  have b: "Output cmd args w = OutputWith [] cmd args w"
    by (simp add: Output_def OutputWith_def)
  show ?thesis
    using a b TrimSuffix_newline TrimSuffix_no_newline by blast
qed


theorem Output_strips_one_newline_witness:
  "fst (fst (Output ''echo'' \<lparr>s_arr = 0, s_off = 0, s_len = 1, s_cap = 1\<rparr>
               (demo_world\<lparr>heap := [[''hello'']]\<rparr>))) = ''hello''
   \<and> fst (fst (Output ''echo'' \<lparr>s_arr = 0, s_off = 0, s_len = 1, s_cap = 1\<rparr>
               (demo_world\<lparr>heap := [[''hello'' @ newline]]\<rparr>))) = ''hello'' @ newline
   \<and> TrimSuffix ''hello'' newline = ''hello''"
proof -
  let ?s = "\<lparr>s_arr = 0, s_off = 0, s_len = 1, s_cap = 1\<rparr>"
  let ?w1 = "demo_world\<lparr>heap := [[''hello'']]\<rparr>"
  let ?w2 = "demo_world\<lparr>heap := [[''hello'' @ newline]]\<rparr>"
  have f: "expand [] ?w1 = expand [] demo_world" "expand [] ?w2 = expand [] demo_world"
    by (rule ext, simp add: expand_def Getenv_def)+
  have g1: "expandGlob ?w1 (map (\<lambda>a. Expand a (expand [] ?w1)) (slice_elems (heap ?w1) ?s)) =
              Inr [''hello'']"
    unfolding f expandGlob_heap
    by (simp add: slice_elems_def expandGlob_def newline_def demo_world_def demo_glob_def)
  have g2: "expandGlob ?w2 (map (\<lambda>a. Expand a (expand [] ?w2)) (slice_elems (heap ?w2) ?s)) =
              Inr [''hello'' @ newline]"
    unfolding f expandGlob_heap
    by (simp add: slice_elems_def expandGlob_def newline_def demo_world_def demo_glob_def)
  have wf: "wf_slice (heap ?w1) ?s" "wf_slice (heap ?w2) ?s"
    by (simp_all add: wf_slice_def)
  have c: "command ?w1 = command demo_world" "command ?w2 = command demo_world"
    by simp_all
  note t1 = Output_strips_one_newline [where w = ?w1 and args = ?s and env = "[]"
      and expanded = "[''hello'']" and cmd = "''echo''"]
  note t2 = Output_strips_one_newline [where w = ?w2 and args = ?s and env = "[]"
      and expanded = "[''hello'' @ newline]" and cmd = "''echo''"]
  have o1: "fst (fst (Output ''echo'' ?s ?w1)) = TrimSuffix (''hello'' @ newline) newline"
    using t1 wf(1) g1 by (simp only: c demo_Expand_cmd demo_command_result) simp
  have o2: "fst (fst (Output ''echo'' ?s ?w2)) = TrimSuffix ((''hello'' @ newline) @ newline) newline"
    using t2 wf(2) g2 by (simp only: c demo_Expand_cmd demo_command_result) simp
  have n: "\<not> (\<exists>t. ''hello'' = t @ newline)"
    by (simp add: newline_def append_eq_Cons_conv)
  have o3: "TrimSuffix ''hello'' newline = ''hello''"
    using t1 n by blast
  note tn = t1 [THEN conjunct2, THEN conjunct2, THEN conjunct1, rule_format]
  show ?thesis
    unfolding o1 o2 o3 tn by simp
qed

subsection \<open>The caller's slice after a call\<close>

lemma write_at_length [simp]: "length (write_at a i xs) = length a"
  by (induction xs arbitrary: a i) simp_all

lemma write_at_take: "take i (write_at a i xs) = take i a"
proof (induction xs arbitrary: a i)
  case Nil
  show ?case by simp
next
  case (Cons x xs)
  have "take i (write_at (a[i := x]) (Suc i) xs) = take i (take (Suc i) (write_at (a[i := x]) (Suc i) xs))"
    by simp
  also have "\<dots> = take i (take (Suc i) (a[i := x]))"
    by (simp only: Cons.IH)
  also have "\<dots> = take i a"
    by simp
  finally show ?case by simp
qed

lemma slice_elems_length: "wf_slice h s \<Longrightarrow> length (slice_elems h s) = s_len s"
  by (auto simp: wf_slice_def slice_elems_def)

lemma slice_elems_prefix:
  assumes "s_arr t = s_arr s" and "s_off t = s_off s" and "s_len s \<le> s_len t"
  shows "slice_elems h s = take (s_len s) (slice_elems h t)"
  using assms by (simp add: slice_elems_def min_def)

lemma expand_heap [simp]: "expand env (w\<lparr>heap := x\<rparr>) = expand env w"
  by (rule ext) (simp add: expand_def Getenv_def split: option.splits)

lemma RunWith_heap:
  "heap (snd (RunWith env cmd args w)) = heap (snd (Exec env (if verbose w then OsStdout else NilWriter) OsStderr cmd args w))"
  by (simp add: RunWith_def Let_def)

lemma Exec_elems:
  assumes "wf_slice (heap w) args"
  shows "slice_elems (heap (snd (Exec env so se cmd args w))) args =
           map (\<lambda>a. Expand a (expand env w)) (slice_elems (heap w) args)"
  unfolding Exec_heap using assms by (rule expand_args_elems)

lemma append_slice_in_place:
  assumes "wf_slice h s" and "s_len s + length xs \<le> s_cap s"
  shows "wf_slice (snd (append_slice s xs h)) (fst (append_slice s xs h))"
    and "slice_elems (snd (append_slice s xs h)) s = slice_elems h s"
    and "s_arr (fst (append_slice s xs h)) = s_arr s"
    and "s_off (fst (append_slice s xs h)) = s_off s"
    and "s_len s \<le> s_len (fst (append_slice s xs h))"
proof -
  show "wf_slice (snd (append_slice s xs h)) (fst (append_slice s xs h))"
    using assms by (auto simp: append_slice_def wf_slice_def)
  show "slice_elems (snd (append_slice s xs h)) s = slice_elems h s"
  proof (cases "xs = [] \<or> s_len s = 0")
    case True
    then show ?thesis
      using assms by (auto simp: append_slice_def slice_elems_def)
  next
    case False
    with assms have a: "s_arr s < length h"
      by (auto simp: wf_slice_def)
    let ?A = "h ! s_arr s"
    let ?B = "write_at ?A (s_off s + s_len s) xs"
    have "take (s_len s) (drop (s_off s) ?B) = drop (s_off s) (take (s_off s + s_len s) ?B)"
      by (simp add: drop_take)
    also have "\<dots> = drop (s_off s) (take (s_off s + s_len s) ?A)"
      by (simp only: write_at_take)
    also have "\<dots> = take (s_len s) (drop (s_off s) ?A)"
      by (simp add: drop_take)
    finally show ?thesis
      using False assms(2) a by (simp add: append_slice_def slice_elems_def)
  qed
  show "s_arr (fst (append_slice s xs h)) = s_arr s"
    and "s_off (fst (append_slice s xs h)) = s_off s"
    and "s_len s \<le> s_len (fst (append_slice s xs h))"
    using assms(2) by (simp_all add: append_slice_def)
qed

lemma RunCmd_in_place:
  assumes "wf_slice (heap w) args" and "wf_slice (heap w) args2"
    and "s_len args + s_len args2 \<le> s_cap args"
  shows "slice_elems (heap (snd (RunCmd cmd args args2 w))) args =
           map (\<lambda>a. Expand a (expand [] w)) (slice_elems (heap w) args)"
proof -
  let ?xs = "slice_elems (heap w) args2"
  let ?a = "append_slice args ?xs (heap w)"
  let ?w' = "w\<lparr>heap := snd ?a\<rparr>"
  have n: "s_len args + length ?xs \<le> s_cap args"
    using assms(2,3) by (simp add: slice_elems_length)
  note ap = append_slice_in_place [OF assms(1) n]
  have wf: "wf_slice (heap ?w') (fst ?a)"
    using ap(1) by simp
  let ?out = "if verbose ?w' then OsStdout else NilWriter"
  have h: "heap (snd (RunCmd cmd args args2 w)) = heap (snd (Exec [] ?out OsStderr cmd (fst ?a) ?w'))"
    by (simp add: RunCmd_def Run_def RunWith_def Let_def)
  have "slice_elems (heap (snd (RunCmd cmd args args2 w))) args =
          take (s_len args) (slice_elems (heap (snd (RunCmd cmd args args2 w))) (fst ?a))"
    by (rule slice_elems_prefix) (simp_all only: ap)
  also have "\<dots> = take (s_len args) (map (\<lambda>a. Expand a (expand [] ?w')) (slice_elems (heap ?w') (fst ?a)))"
    unfolding h by (simp only: Exec_elems [OF wf])
  also have "\<dots> = map (\<lambda>a. Expand a (expand [] w)) (take (s_len args) (slice_elems (heap ?w') (fst ?a)))"
    by (simp add: take_map)
  also have "take (s_len args) (slice_elems (heap ?w') (fst ?a)) = slice_elems (heap ?w') args"
    by (rule slice_elems_prefix [symmetric]) (simp_all only: ap)
  also have "\<dots> = slice_elems (heap w) args"
    using ap(2) by simp
  finally show ?thesis .
qed


lemma RunCmd_fresh:
  assumes "wf_slice (heap w) args" and "wf_slice (heap w) args2"
    and "s_cap args < s_len args + s_len args2"
  shows "slice_elems (heap (snd (RunCmd cmd args args2 w))) args = slice_elems (heap w) args"
proof (cases "s_len args = 0")
  case True
  then show ?thesis by (simp add: slice_elems_def)
next
  case False
  with assms(1) have a: "s_arr args < length (heap w)"
    by (auto simp: wf_slice_def)
  let ?xs = "slice_elems (heap w) args2"
  let ?h = "heap w @ [slice_elems (heap w) args @ ?xs]"
  let ?t = "\<lparr>s_arr = length (heap w), s_off = 0, s_len = s_len args + length ?xs,
             s_cap = s_len args + length ?xs\<rparr>"
  have n: "\<not> s_len args + length ?xs \<le> s_cap args"
    using assms(2,3) by (simp add: slice_elems_length)
  have ap: "append_slice args ?xs (heap w) = (?t, ?h)"
    using n by (simp add: append_slice_def)
  let ?w' = "w\<lparr>heap := ?h\<rparr>"
  let ?out = "if verbose ?w' then OsStdout else NilWriter"
  have "heap (snd (RunCmd cmd args args2 w)) = heap (snd (Exec [] ?out OsStderr cmd ?t ?w'))"
    by (simp add: RunCmd_def Run_def RunWith_def Let_def ap)
  also have "\<dots> = expand_args (expand [] ?w') ?t [0..<s_len ?t] ?h"
    by (simp add: Exec_heap)
  also have "\<dots> ! s_arr args = heap w ! s_arr args"
    using a by (simp add: expand_args_array nth_append)
  finally show ?thesis
    using False by (simp add: slice_elems_def)
qed

lemma run_frame:
  "environ (snd (run env so se cmd args w)) = environ w"
  "glob (snd (run env so se cmd args w)) = glob w"
  "command (snd (run env so se cmd args w)) = command w"
  "verbose (snd (run env so se cmd args w)) = verbose w"
  by (cases "expandGlob w (slice_elems (heap w) args)"; simp add: run_def Let_def)+

lemma Exec_frame:
  "environ (snd (Exec env so se cmd args w)) = environ w"
  "glob (snd (Exec env so se cmd args w)) = glob w"
  "command (snd (Exec env so se cmd args w)) = command w"
  "verbose (snd (Exec env so se cmd args w)) = verbose w"
  by (simp_all add: Exec_snd run_frame)

text \<open>
  Claim C10. \<^verbatim>\<open>Exec\<close> writes the expanded arguments into the array of the slice it is
  given: after the call, whatever its outcome, the caller's slice holds the expanded
  strings; so it is after \<^verbatim>\<open>RunWith\<close> and \<^verbatim>\<open>Run\<close>, which pass their slice on. A closure
  made by \<^verbatim>\<open>RunCmd\<close> appends the extra arguments to its kept slice: when the capacity
  suffices (always when there are no extra arguments), the call runs on the kept array,
  and the kept arguments are expanded in place for every later call; when \<^verbatim>\<open>append\<close>
  must allocate, the kept arguments stay as they were.
\<close>

theorem Exec_overwrites_caller_args:
  "(wf_slice (heap w) args \<longrightarrow>
      slice_elems (heap (snd (Exec env so se cmd args w))) args =
        map (\<lambda>a. Expand a (expand env w)) (slice_elems (heap w) args)
      \<and> slice_elems (heap (snd (RunWith env cmd args w))) args =
        map (\<lambda>a. Expand a (expand env w)) (slice_elems (heap w) args)
      \<and> slice_elems (heap (snd (Run cmd args w))) args =
        map (\<lambda>a. Expand a (expand [] w)) (slice_elems (heap w) args))
   \<and> (wf_slice (heap w) args \<and> wf_slice (heap w) extra \<and> s_len args + s_len extra \<le> s_cap args \<longrightarrow>
        slice_elems (heap (snd (RunCmd cmd args extra w))) args =
          map (\<lambda>a. Expand a (expand [] w)) (slice_elems (heap w) args))
   \<and> (wf_slice (heap w) args \<and> wf_slice (heap w) extra \<and> s_cap args < s_len args + s_len extra \<longrightarrow>
        slice_elems (heap (snd (RunCmd cmd args extra w))) args = slice_elems (heap w) args)"
proof -
  have a: "slice_elems (heap (snd (Exec env so se cmd args w))) args =
        map (\<lambda>a. Expand a (expand env w)) (slice_elems (heap w) args)"
    if "wf_slice (heap w) args" for env so se
    using that by (rule Exec_elems)
  have b: "slice_elems (heap (snd (RunWith env cmd args w))) args =
        map (\<lambda>a. Expand a (expand env w)) (slice_elems (heap w) args)"
    if "wf_slice (heap w) args" for env
    unfolding RunWith_heap using that by (rule a)
  have c: "slice_elems (heap (snd (Run cmd args w))) args =
        map (\<lambda>a. Expand a (expand [] w)) (slice_elems (heap w) args)"
    if "wf_slice (heap w) args"
    unfolding Run_def using that by (rule b)
  show ?thesis
    using a b c RunCmd_in_place RunCmd_fresh by blast
qed

theorem Exec_overwrites_caller_args_witness:
  "slice_elems (heap (demo_world\<lparr>heap := [[''$FOO'']]\<rparr>)) demo_baked = [''$FOO'']
   \<and> slice_elems (heap (snd (RunCmd ''echo'' demo_baked nil_slice
          (demo_world\<lparr>heap := [[''$FOO'']]\<rparr>)))) demo_baked = [''baz'']
   \<and> launched (snd (RunCmd ''echo'' demo_baked nil_slice
         ((snd (RunCmd ''echo'' demo_baked nil_slice (demo_world\<lparr>heap := [[''$FOO'']]\<rparr>)))
            \<lparr>environ := [(''FOO'', ''qux'')], launched := []\<rparr>))) =
       [(''echo'', [''baz''], [''FOO=qux''])]"
proof -
  let ?w = "demo_world\<lparr>heap := [[''$FOO'']]\<rparr>"
  define w1 where "w1 = snd (RunCmd ''echo'' demo_baked nil_slice ?w)"
  define w2 where "w2 = w1\<lparr>environ := [(''FOO'', ''qux'')], launched := []\<rparr>"
  have wf: "wf_slice (heap ?w) demo_baked" "wf_slice (heap ?w) nil_slice"
    "s_len demo_baked + s_len nil_slice \<le> s_cap demo_baked"
    by (simp_all add: wf_slice_def demo_baked_def nil_slice_def)
  have el: "slice_elems (heap ?w) demo_baked = [''$FOO'']"
    by (simp add: slice_elems_def demo_baked_def)
  have f: "expand [] ?w = expand [] demo_world"
    by simp
  have ex: "map (\<lambda>a. Expand a (expand [] demo_world)) [''$FOO''] = [''baz'']"
    by (simp add: demo_getShellName demo_expand)
  have first: "slice_elems (heap w1) demo_baked = [''baz'']"
    unfolding w1_def
    using Exec_overwrites_caller_args [where w = ?w and args = demo_baked and extra = nil_slice
        and cmd = "''echo''", THEN conjunct2, THEN conjunct1] wf
    by (simp only: el f ex)
  have v: "verbose demo_world = False"
    by (simp add: demo_world_def)
  have h1: "heap w1 = [[''baz'']]"
    unfolding w1_def
    by (simp add: RunCmd_def Run_def RunWith_def Let_def v Exec_heap append_slice_def nil_slice_def
        demo_baked_def slice_elems_def slice_set_def slice_get_def demo_getShellName demo_expand)
  have fr: "glob w1 = glob demo_world" "command w1 = command demo_world" "verbose w1 = False"
    unfolding w1_def
    by (simp_all add: RunCmd_def Run_def RunWith_def Exec_frame Let_def demo_world_def)
  have ap: "append_slice demo_baked (slice_elems (heap w2) nil_slice) (heap w2) =
              (demo_baked, [[''baz'']])"
    by (simp add: w2_def h1 append_slice_def slice_elems_def nil_slice_def demo_baked_def)
  define w3 where "w3 = w2\<lparr>heap := [[''baz'']]\<rparr>"
  have wf3: "wf_slice (heap w3) demo_baked"
    by (simp add: w3_def wf_slice_def demo_baked_def)
  have el3: "slice_elems (heap w3) demo_baked = [''baz'']"
    by (simp add: w3_def slice_elems_def demo_baked_def)
  have gl: "glob w3 ''baz'' = Inr []"
    by (simp add: w3_def w2_def fr) (simp add: demo_world_def demo_glob_def)
  have g3: "expandGlob w3 (map (\<lambda>a. Expand a (expand [] w3)) (slice_elems (heap w3) demo_baked)) =
              Inr [''baz'']"
    unfolding el3 by (simp add: expandGlob_def gl)
  have env3: "Environ w3 = [''FOO=qux'']" "launched w3 = []" "verbose w2 = False"
    by (simp_all add: w3_def w2_def Environ_def fr)
  have "launched (snd (Exec [] NilWriter OsStderr ''echo'' demo_baked w3)) =
          [(''echo'', [''baz''], [''FOO=qux''])]"
    using Exec_started(2) [OF wf3 g3, of NilWriter OsStderr "''echo''", unfolded env3 demo_Expand_cmd]
    by simp
  then have second: "launched (snd (RunCmd ''echo'' demo_baked nil_slice w2)) =
                  [(''echo'', [''baz''], [''FOO=qux''])]"
    by (simp add: RunCmd_def Run_def RunWith_def Let_def ap env3 w3_def)
  show ?thesis
    using el first second unfolding w2_def w1_def by simp
qed

end
